theory Spec2Isabelle
  imports Main "HOL-Library.Sublist"
begin

section \<open>JavaScript string primitives used by the generator\<close>

text \<open>
  Strings are modelled as \<^typ>\<open>string\<close> (lists of characters) and the model is meant for
  ASCII text: route patterns, HTTP method names, file names and group keys. On ASCII text
  \<^verbatim>\<open>toLowerCase\<close> and \<^verbatim>\<open>toUpperCase\<close> change the 26 letters only, and a
  regular expression with the \<^verbatim>\<open>i\<close> flag and without the \<^verbatim>\<open>u\<close> flag lets
  a letter of a character class match both of its cases.
\<close>

definition lower_letters :: string where
  "lower_letters = ''abcdefghijklmnopqrstuvwxyz''"

definition upper_letters :: string where
  "upper_letters = ''ABCDEFGHIJKLMNOPQRSTUVWXYZ''"

definition digit_chars :: string where
  "digit_chars = ''0123456789''"

definition toLowerCase_char :: "char \<Rightarrow> char" where
  "toLowerCase_char c =
     (case map_of (zip upper_letters lower_letters) c of Some d \<Rightarrow> d | None \<Rightarrow> c)"

definition toUpperCase_char :: "char \<Rightarrow> char" where
  "toUpperCase_char c =
     (case map_of (zip lower_letters upper_letters) c of Some d \<Rightarrow> d | None \<Rightarrow> c)"

definition toLowerCase :: "string \<Rightarrow> string" where
  "toLowerCase s = map toLowerCase_char s"

definition toUpperCase :: "string \<Rightarrow> string" where
  "toUpperCase s = map toUpperCase_char s"

text \<open>\<^verbatim>\<open>s.startsWith(p)\<close> and \<^verbatim>\<open>s.endsWith(p)\<close>.\<close>

definition startsWith :: "string \<Rightarrow> string \<Rightarrow> bool" where
  "startsWith s p = prefix p s"

definition endsWith :: "string \<Rightarrow> string \<Rightarrow> bool" where
  "endsWith s p = suffix p s"

text \<open>
  \<^verbatim>\<open>s.split(sep)\<close> for a one-character separator: the pieces between the occurrences
  of the separator; the result is never empty (\<^verbatim>\<open>''.split('/')\<close> is \<^verbatim>\<open>['']\<close>).
\<close>

fun split_char :: "char \<Rightarrow> string \<Rightarrow> string list" where
  "split_char sep [] = [[]]"
| "split_char sep (c # cs) =
     (if c = sep then [] # split_char sep cs
      else (case split_char sep cs of
              w # ws \<Rightarrow> (c # w) # ws
            | [] \<Rightarrow> [[c]]))"

text \<open>
  \<^verbatim>\<open>s.split(/[...]+/)\<close> for a character class: the pieces between the maximal runs of
  separator characters.
\<close>

function split_runs :: "(char \<Rightarrow> bool) \<Rightarrow> string \<Rightarrow> string list" where
  "split_runs isSep [] = [[]]"
| "split_runs isSep (c # cs) =
     (if isSep c then [] # split_runs isSep (dropWhile isSep cs)
      else (case split_runs isSep cs of
              w # ws \<Rightarrow> (c # w) # ws
            | [] \<Rightarrow> [[c]]))"
  by pat_completeness auto
termination
  by (relation "measure (\<lambda>(isSep, s). length s)")
     (auto simp: le_imp_less_Suc length_dropWhile_le)

text \<open>\<^verbatim>\<open>xs.join(sep)\<close>.\<close>

fun join :: "string \<Rightarrow> string list \<Rightarrow> string" where
  "join sep [] = []"
| "join sep [x] = x"
| "join sep (x # y # ys) = x @ sep @ join sep (y # ys)"

text \<open>
  \<^verbatim>\<open>s.replace(pat, rep)\<close> with a string pattern: the first occurrence of \<^verbatim>\<open>pat\<close>
  is replaced, the rest of the string is kept. (Every call of the generator passes the
  replacement \<^verbatim>\<open>''\<close>, which has no \<^verbatim>\<open>$\<close> patterns.)
\<close>

fun replace :: "string \<Rightarrow> string \<Rightarrow> string \<Rightarrow> string" where
  "replace [] pat rep = (if pat = [] then rep else [])"
| "replace (c # cs) pat rep =
     (if prefix pat (c # cs) then rep @ drop (length pat) (c # cs)
      else c # replace cs pat rep)"

text \<open>
  \<^verbatim>\<open>[...new Set(xs)]\<close>: a set keeps its elements in insertion order and adding an
  element that is already there changes nothing.
\<close>

definition set_add :: "'a list \<Rightarrow> 'a \<Rightarrow> 'a list" where
  "set_add s x = (if x \<in> set s then s else s @ [x])"

definition new_Set :: "'a list \<Rightarrow> 'a list" where
  "new_Set xs = foldl set_add [] xs"

text \<open>\<^verbatim>\<open>Boolean(v)\<close> for \<^verbatim>\<open>v: string | undefined\<close>: only \<^verbatim>\<open>undefined\<close> and the
  empty string are falsy.\<close>

fun Boolean :: "string option \<Rightarrow> bool" where
  "Boolean None = False"
| "Boolean (Some s) = (s \<noteq> [])"

subsection \<open>The regular expressions of the source\<close>

definition is_lower :: "char \<Rightarrow> bool" where
  "is_lower c = (c \<in> set lower_letters)"

definition is_upper :: "char \<Rightarrow> bool" where
  "is_upper c = (c \<in> set upper_letters)"

definition is_digit :: "char \<Rightarrow> bool" where
  "is_digit c = (c \<in> set digit_chars)"

text \<open>\<^verbatim>\<open>/^:[a-zA-Z]+$/i\<close>\<close>

fun match_param_segment :: "string \<Rightarrow> bool" where
  "match_param_segment [] = False"
| "match_param_segment (c # cs) =
     (c = CHR '':'' \<and> cs \<noteq> [] \<and> list_all (\<lambda>d. is_lower d \<or> is_upper d) cs)"

text \<open>\<^verbatim>\<open>/^[a-z0-9-]+$/i\<close>: with the \<^verbatim>\<open>i\<close> flag the class \<^verbatim>\<open>a-z\<close> also matches
  the capital letters.\<close>

definition match_literal_segment :: "string \<Rightarrow> bool" where
  "match_literal_segment s =
     (s \<noteq> [] \<and> list_all (\<lambda>d. is_lower d \<or> is_upper d \<or> is_digit d \<or> d = CHR ''-'') s)"

text \<open>\<^verbatim>\<open>/^\/[a-z0-9-\/]+\/$/\<close>\<close>

fun test_group_value :: "string \<Rightarrow> bool" where
  "test_group_value [] = False"
| "test_group_value (c # cs) =
     (c = CHR ''/'' \<and> cs \<noteq> [] \<and> last cs = CHR ''/'' \<and> butlast cs \<noteq> [] \<and>
      list_all (\<lambda>d. is_lower d \<or> is_digit d \<or> d = CHR ''-'' \<or> d = CHR ''/'') (butlast cs))"

text \<open>\<^verbatim>\<open>/^[a-z0-9_]+$/\<close>\<close>

definition test_group_key :: "string \<Rightarrow> bool" where
  "test_group_key s =
     (s \<noteq> [] \<and> list_all (\<lambda>d. is_lower d \<or> is_digit d \<or> d = CHR ''_'') s)"

section \<open>Runtime helpers: path interpolation and route registration\<close>

text \<open>
  \<^verbatim>\<open>interpolate\<close> of \<^verbatim>\<open>src/interpolate.ts\<close>, which the package exports and
  \<^verbatim>\<open>pathParser\<close> calls, is not among the source files. The spec says of it: given a
  path template containing zero or more \<^verbatim>\<open>{{ name }}\<close> placeholders and a parameters
  object, it returns a string with every placeholder replaced by the corresponding
  parameter's string representation, and it fails with an error if a placeholder's name
  has no corresponding parameter.
\<close>

text \<open>Modelled from the spec: the error of \<^verbatim>\<open>interpolate\<close> (missing from the sources)
  for a placeholder whose name has no parameter.\<close>

datatype interpolate_error = MissingParameter string

text \<open>Modelled from the spec: the characters of the name of a placeholder of
  \<^verbatim>\<open>interpolate\<close> (missing from the sources): no space and no brace.\<close>

definition is_name_char :: "char \<Rightarrow> bool" where
  "is_name_char c = (c \<noteq> CHR '' '' \<and> c \<noteq> CHR ''{'' \<and> c \<noteq> CHR ''}'')"

text \<open>Modelled from the spec: the placeholder \<^verbatim>\<open>{{ name }}\<close> of \<^verbatim>\<open>interpolate\<close>
  (missing from the sources) at the start of a text, as its name and the text after it.\<close>

definition take_placeholder :: "string \<Rightarrow> (string \<times> string) option" where
  "take_placeholder s =
     (if prefix ''{{ '' s then
        (let n = takeWhile is_name_char (drop 3 s);
             r = dropWhile is_name_char (drop 3 s)
         in if n \<noteq> [] \<and> prefix '' }}'' r then Some (n, drop 3 r) else None)
      else None)"

text \<open>Modelled from the spec: \<^verbatim>\<open>interpolate\<close> of \<^verbatim>\<open>src/interpolate.ts\<close> (missing
  from the sources). The parameters object maps a name to the string representation of its
  value; every placeholder is replaced, the other text of the template is kept, and the
  first placeholder without a parameter is the error.\<close>

function interpolate :: "string \<Rightarrow> (string \<rightharpoonup> string) \<Rightarrow> interpolate_error + string" where
  "interpolate [] params = Inr []"
| "interpolate (c # cs) params =
     (case take_placeholder (c # cs) of
        Some (n, rest) \<Rightarrow>
          (case params n of
             None \<Rightarrow> Inl (MissingParameter n)
           | Some v \<Rightarrow>
               (case interpolate rest params of
                  Inl e \<Rightarrow> Inl e
                | Inr r \<Rightarrow> Inr (v @ r)))
      | None \<Rightarrow>
          (case interpolate cs params of
             Inl e \<Rightarrow> Inl e
           | Inr r \<Rightarrow> Inr (c # r)))"
  by pat_completeness auto
termination
  apply (relation "measure (\<lambda>(s, params). length s)")
    apply simp
   apply (auto simp: take_placeholder_def Let_def split: if_splits)
  apply (metis le_imp_less_Suc length_dropWhile_le diff_le_self le_trans length_drop)
  done

text \<open>\<^verbatim>\<open>pathParser\<close> and \<^verbatim>\<open>register\<close> of \<^verbatim>\<open>src/register_route.ts\<close>.\<close>

definition pathParser :: "string \<Rightarrow> (string \<rightharpoonup> string) \<Rightarrow> interpolate_error + string" where
  "pathParser p params = interpolate p params"

record Descriptor =
  path :: "(string \<rightharpoonup> string) \<Rightarrow> interpolate_error + string"
  "method" :: string
  form :: bool

definition register :: "string \<Rightarrow> string \<Rightarrow> bool \<Rightarrow> Descriptor" where
  "register params_path params_method params_form =
     \<lparr>path = (\<lambda>p. pathParser params_path p),
      method = params_method,
      form = params_form\<rparr>"

text \<open>
  A template as the generator writes it: literal text and placeholders in turn.
\<close>

datatype piece = Literal string | Placeholder string

fun render :: "piece list \<Rightarrow> string" where
  "render [] = []"
| "render (Literal t # ps) = t @ render ps"
| "render (Placeholder n # ps) = ''{{ '' @ n @ '' }}'' @ render ps"

fun placeholders :: "piece list \<Rightarrow> string list" where
  "placeholders [] = []"
| "placeholders (Literal t # ps) = placeholders ps"
| "placeholders (Placeholder n # ps) = n # placeholders ps"

fun fill :: "(string \<rightharpoonup> string) \<Rightarrow> piece \<Rightarrow> string" where
  "fill params (Literal t) = t"
| "fill params (Placeholder n) = (case params n of Some v \<Rightarrow> v | None \<Rightarrow> [])"

fun wellformed_piece :: "piece \<Rightarrow> bool" where
  "wellformed_piece (Literal t) = (CHR ''{'' \<notin> set t)"
| "wellformed_piece (Placeholder n) = (n \<noteq> [] \<and> list_all is_name_char n)"

section \<open>Objects and their enumeration order\<close>

text \<open>
  A plain object with string values is the list of its own properties in the order in
  which they were created. \<^verbatim>\<open>Object.entries\<close> does not enumerate in that order when
  some key is an array index (a canonical decimal numeral below \<open>2\<^sup>3\<^sup>2 - 1\<close>): the array
  indices come first, in ascending numeric order, and the other keys follow in creation
  order.
\<close>

type_synonym object = "(string \<times> string) list"

definition digit_value :: "char \<Rightarrow> int" where
  "digit_value c = of_char c - of_char (CHR ''0'')"

definition numeric_value :: "string \<Rightarrow> int" where
  "numeric_value s = foldl (\<lambda>n c. 10 * n + digit_value c) 0 s"

definition is_array_index :: "string \<Rightarrow> bool" where
  "is_array_index k =
     (case k of
        [] \<Rightarrow> False
      | c # cs \<Rightarrow> list_all is_digit k \<and> (if c = CHR ''0'' then cs = [] else True) \<and>
          numeric_value k < 2 ^ 32 - 1)"

definition Object_entries :: "object \<Rightarrow> (string \<times> string) list" where
  "Object_entries obj =
     sort_key (\<lambda>(k, v). numeric_value k) (filter (\<lambda>(k, v). is_array_index k) obj) @
     filter (\<lambda>(k, v). \<not> is_array_index k) obj"

section \<open>Errors\<close>

record Controller =
  relative :: string
  path :: string

record RouteName =
  key :: string
  type :: string

record ParsedRoute =
  path :: string
  "method" :: string
  form :: bool
  name :: RouteName
  controller :: Controller

text \<open>The \<^verbatim>\<open>cause\<close> object that the generator attaches to an \<^verbatim>\<open>Error\<close>.\<close>

datatype cause =
    CausePath string
  | CauseSegment nat string
  | CauseRoutes ParsedRoute ParsedRoute

datatype error =
    Error string cause
  | RuntimeException string
  | InvalidArgumentsException string

section \<open>Configuration\<close>

record FinesConfig =
  groups :: object

text \<open>\<^verbatim>\<open>defineConfig\<close>: the loop over \<^verbatim>\<open>Object.entries(config.groups)\<close>.\<close>

fun defineConfig_loop :: "(string \<times> string) list \<Rightarrow> error option" where
  "defineConfig_loop [] = None"
| "defineConfig_loop ((k, v) # rest) =
     (if \<not> test_group_value v then
        Some (InvalidArgumentsException
          (''Invalid group \"'' @ k @ ''\" value: \"'' @ v @
           ''\", Only alphanumeric characters and hyphens are allowed with leading and trailing slashes''))
      else if \<not> test_group_key k then
        Some (InvalidArgumentsException
          (''Invalid group \"'' @ k @
           ''\" name, Only alphanumeric characters and underscores are allowed''))
      else defineConfig_loop rest)"

definition defineConfig :: "FinesConfig \<Rightarrow> error + FinesConfig" where
  "defineConfig config =
     (let groupsLength = length (groups config) in
      if groupsLength > 0 then
        (case defineConfig_loop (Object_entries (groups config)) of
           Some e \<Rightarrow> Inl e
         | None \<Rightarrow> Inr config)
      else Inr config)"

section \<open>Method resolution\<close>

text \<open>
  \<^verbatim>\<open>#getMethod(methods)\<close>: the loop over \<^verbatim>\<open>methods\<close> with the running
  \<^verbatim>\<open>result\<close>, which starts as \<^verbatim>\<open>'GET'\<close>.
\<close>

fun getMethod_loop :: "string \<Rightarrow> string list \<Rightarrow> string" where
  "getMethod_loop result [] = result"
| "getMethod_loop result (m # ms) =
     (let lowerMethod = toLowerCase m in
      if lowerMethod = ''head'' then getMethod_loop result ms
      else getMethod_loop (toUpperCase lowerMethod) ms)"

definition getMethod :: "string list \<Rightarrow> string" where
  "getMethod ms = getMethod_loop ''GET'' ms"

section \<open>Grouping\<close>

datatype handler =
    HandlerFunction
  | HandlerReference string
    \<comment> \<open>\<^verbatim>\<open>moduleNameOrPath\<close>, as \<^verbatim>\<open>parseBindingReference\<close> of the framework returns it\<close>

record RouteJSON =
  pattern :: string
  methods :: "string list"
  handler :: handler

text \<open>
  \<^verbatim>\<open>#groupRoutes\<close>, inner loop: the first entry of \<^verbatim>\<open>Object.entries(config.groups)\<close>
  whose value is a prefix of the pattern; \<open>None\<close> is \<^verbatim>\<open>group\<close> left undefined.
\<close>

fun find_group :: "(string \<times> string) list \<Rightarrow> string \<Rightarrow> string option" where
  "find_group [] pat = None"
| "find_group ((k, v) # rest) pat =
     (if startsWith pat v then Some k else find_group rest pat)"

text \<open>\<^verbatim>\<open>if (!group) group = 'internal'\<close>: an undefined and an empty key are both falsy.\<close>

definition route_group :: "FinesConfig \<Rightarrow> string \<Rightarrow> string" where
  "route_group config pat =
     (case find_group (Object_entries (groups config)) pat of
        None \<Rightarrow> ''internal''
      | Some g \<Rightarrow> if g = [] then ''internal'' else g)"

text \<open>A \<^verbatim>\<open>Map<string, RouteJSON[]>\<close> keeps its keys in insertion order.\<close>

fun map_push :: "(string \<times> 'a list) list \<Rightarrow> string \<Rightarrow> 'a \<Rightarrow> (string \<times> 'a list) list" where
  "map_push [] g r = [(g, [r])]"
| "map_push ((k, rs) # rest) g r =
     (if k = g then (k, rs @ [r]) # rest else (k, rs) # map_push rest g r)"

fun groupRoutes_loop ::
  "FinesConfig \<Rightarrow> (string \<times> RouteJSON list) list \<Rightarrow> RouteJSON list \<Rightarrow> (string \<times> RouteJSON list) list"
where
  "groupRoutes_loop config result [] = result"
| "groupRoutes_loop config result (route # routes) =
     groupRoutes_loop config (map_push result (route_group config (pattern route)) route) routes"

text \<open>\<^verbatim>\<open>#config\<close> throws when the application has no configuration.\<close>

definition groupRoutes ::
  "FinesConfig option \<Rightarrow> RouteJSON list \<Rightarrow> error + (string \<times> RouteJSON list) list"
where
  "groupRoutes rawConfig routes =
     (case rawConfig of
        None \<Rightarrow> Inl (RuntimeException
          ''Invalid \"config/fines.ts\" file. Make sure you are using the \"defineConfig\" method'')
      | Some config \<Rightarrow> Inr (groupRoutes_loop config [] routes))"

section \<open>Route names\<close>

text \<open>\<^verbatim>\<open>#getConstructorAction(path)\<close>\<close>

definition getConstructorAction :: "string \<Rightarrow> error + string list" where
  "getConstructorAction p =
     (case rev (split_char CHR ''/'' p) of
        [] \<Rightarrow> Inl (Error ''Unable to determine the file name'' (CausePath p))
      | fileName # _ \<Rightarrow>
          if fileName = [] then
            Inl (Error ''Unable to determine the file name'' (CausePath p))
          else if \<not> endsWith fileName ''_controller.ts'' then
            Inl (Error ''The file name must end with \"_controller.ts\"'' (CausePath p))
          else Inr (split_char CHR ''_'' (replace fileName ''_controller.ts'' [])))"

text \<open>
  The string helpers \<^verbatim>\<open>snakeCase\<close> and \<^verbatim>\<open>pascalCase\<close> of the framework and the
  relative path from the client directory of a group to a source file (\<^verbatim>\<open>node:path\<close>)
  are not part of the repository: the generator is modelled for any such functions.
\<close>

record Helpers =
  snakeCase :: "string \<Rightarrow> string"
  pascalCase :: "string \<Rightarrow> string"
  getRelativePath :: "string \<Rightarrow> string \<Rightarrow> string"
    \<comment> \<open>group and file path to \<^verbatim>\<open>#getRelativePath(#getClientPath(group), filePath)\<close>\<close>

text \<open>\<^verbatim>\<open>run\<close>, the loop that collects \<^verbatim>\<open>spacedPath\<close> from the pattern.\<close>

definition spacedPath_of_pattern :: "string \<Rightarrow> string list" where
  "spacedPath_of_pattern pat =
     filter (\<lambda>segment. \<not> startsWith segment '':'')
       (split_runs (\<lambda>c. c \<in> set ''./-'') pat)"

text \<open>\<^verbatim>\<open>run\<close>, from \<^verbatim>\<open>spacedPath\<close> to \<^verbatim>\<open>keyName\<close> and \<^verbatim>\<open>typeName\<close>.\<close>

definition routeName :: "Helpers \<Rightarrow> string \<Rightarrow> string \<Rightarrow> error + RouteName" where
  "routeName h pat relativePath =
     (case getConstructorAction relativePath of
        Inl e \<Rightarrow> Inl e
      | Inr action \<Rightarrow>
          let spacedPath = spacedPath_of_pattern pat @ action;
              joinedSpacedPath = join '' '' (new_Set (map (snakeCase h) spacedPath));
              keyName = toUpperCase (snakeCase h joinedSpacedPath);
              typeName = pascalCase h joinedSpacedPath @ ''Route''
          in Inr \<lparr>key = keyName, type = typeName\<rparr>)"

section \<open>Path segments\<close>

text \<open>
  \<^verbatim>\<open>run\<close>, the loop over \<^verbatim>\<open>splittedPath.entries()\<close>: the segments with the
  parameters rewritten, or the error thrown at the first segment that is refused.
\<close>

fun rewrite_segments :: "string \<Rightarrow> nat \<Rightarrow> string list \<Rightarrow> error + string list" where
  "rewrite_segments pat segmentIndex [] = Inr []"
| "rewrite_segments pat segmentIndex (segment # segments) =
     (if startsWith segment '':'' then
        (if match_param_segment segment then
           (case rewrite_segments pat (segmentIndex + 1) segments of
              Inl e \<Rightarrow> Inl e
            | Inr rest \<Rightarrow> Inr ((''{{ '' @ replace segment '':'' [] @ '' }}'') # rest))
         else Inl (Error ''Only small letters allowed in parameter segments''
                     (CauseSegment segmentIndex pat)))
      else
        (if \<not> match_literal_segment segment then
           Inl (Error ''Only small letters and number allowed in non parameter segments''
                  (CauseSegment segmentIndex pat))
         else
           (case rewrite_segments pat (segmentIndex + 1) segments of
              Inl e \<Rightarrow> Inl e
            | Inr rest \<Rightarrow> Inr (segment # rest))))"

text \<open>\<^verbatim>\<open>route.pattern.split('/').slice(1)\<close>, the loop, and the \<^verbatim>\<open>path\<close> of the draft.\<close>

definition rewritePath :: "string \<Rightarrow> error + string" where
  "rewritePath pat =
     (case rewrite_segments pat 0 (drop 1 (split_char CHR ''/'' pat)) of
        Inl e \<Rightarrow> Inl e
      | Inr splittedPath \<Rightarrow> Inr (''/'' @ join ''/'' splittedPath))"

section \<open>Source files of the project\<close>

text \<open>
  What the generator reads of a source file through the compiler API: the path, the
  classes, whether a class is the default export, whether its type is a class, and of each
  property its name, two tests on its declared type and the text of its initializer
  (\<^verbatim>\<open>getStructure().initializer\<close>, undefined when the property has none).
\<close>

record PropertyDeclaration =
  isObject :: bool
  isBoolean :: bool
  initializer :: "string option"

record ClassDeclaration =
  isDefaultExport :: bool
  isClass :: bool
  properties :: "(string \<times> PropertyDeclaration) list"

record SourceFile =
  filePath :: string
  classes :: "ClassDeclaration list"

definition getProperty :: "ClassDeclaration \<Rightarrow> string \<Rightarrow> PropertyDeclaration option" where
  "getProperty classDef n = map_of (properties classDef) n"

section \<open>The run\<close>

text \<open>
  The state of the loops of \<^verbatim>\<open>run\<close>: the routes accepted so far in the whole run and
  in the current group, the actions reported as skipped (the name of the action and the
  message), and the schema files written (the group and its routes).
\<close>

record State =
  allParsedRoutes :: "ParsedRoute list"
  parsedRoutes :: "ParsedRoute list"
  skipped :: "(string \<times> string) list"
  written :: "(string \<times> ParsedRoute list) list"

definition skip :: "State \<Rightarrow> string \<Rightarrow> string \<Rightarrow> State" where
  "skip s action message = s\<lparr>skipped := skipped s @ [(action, message)]\<rparr>"

text \<open>
  The first part of the loop body, up to \<^verbatim>\<open>parsedRouteDraft\<close>: the route is skipped
  (with the message), or an error is thrown, or the draft is built for the source file found.
\<close>

definition parseRoute ::
  "Helpers \<Rightarrow> SourceFile list \<Rightarrow> string \<Rightarrow> RouteJSON \<Rightarrow> error + (string + ParsedRoute \<times> SourceFile)"
where
  "parseRoute h sourcesFiles grp route =
     (case handler route of
        HandlerFunction \<Rightarrow> Inr (Inl ''We don't support function routes'')
      | HandlerReference moduleNameOrPath \<Rightarrow>
          (case find (\<lambda>sf. endsWith (filePath sf) (replace moduleNameOrPath ''#'' [] @ ''.ts''))
                  sourcesFiles of
             None \<Rightarrow> Inr (Inl ''We couldn't find the source file'')
           | Some routeSourceFile \<Rightarrow>
               let relativePath = getRelativePath h grp (filePath routeSourceFile) in
               (case routeName h (pattern route) relativePath of
                  Inl e \<Rightarrow> Inl e
                | Inr names \<Rightarrow>
                    (case rewritePath (pattern route) of
                       Inl e \<Rightarrow> Inl e
                     | Inr p \<Rightarrow>
                         Inr (Inr (\<lparr>path = p,
                                    method = getMethod (methods route),
                                    form = False,
                                    name = names,
                                    controller = \<lparr>relative = relativePath,
                                                  Controller.path = moduleNameOrPath\<rparr>\<rparr>,
                                   routeSourceFile))))))"

text \<open>The loop over \<^verbatim>\<open>allParsedRoutes\<close> that throws on a collision.\<close>

fun collision :: "ParsedRoute list \<Rightarrow> ParsedRoute \<Rightarrow> error option" where
  "collision [] parsedRouteDraft = None"
| "collision (parsedRoute # rest) parsedRouteDraft =
     (if Controller.path (controller parsedRoute) = Controller.path (controller parsedRouteDraft) then
        Some (Error (''The controller '' @ Controller.path (controller parsedRouteDraft) @
                     '' is already registered'')
                (CauseRoutes parsedRouteDraft parsedRoute))
      else if key (name parsedRoute) = key (name parsedRouteDraft) then
        Some (Error ''The controller key has already been registered''
                (CauseRoutes parsedRouteDraft parsedRoute))
      else collision rest parsedRouteDraft)"

text \<open>
  The validation of the controller: the message of the skip, or the \<^verbatim>\<open>form\<close> flag of
  the route (the draft has \<^verbatim>\<open>false\<close>, and a \<^verbatim>\<open>form\<close> property overwrites it).
\<close>

definition validateController :: "SourceFile \<Rightarrow> string + bool" where
  "validateController routeSourceFile =
     (case find isDefaultExport (classes routeSourceFile) of
        None \<Rightarrow> Inl ''We were not able to find the default export''
      | Some classDef \<Rightarrow>
          if \<not> isClass classDef then Inl ''The default export is not a class''
          else
            (case getProperty classDef ''handle'' of
               None \<Rightarrow> Inl ''We were not able to find the \"handle\" method''
             | Some handleMethod \<Rightarrow>
                 if (case getProperty classDef ''input'' of
                       None \<Rightarrow> False
                     | Some inputProperty \<Rightarrow> \<not> isObject inputProperty)
                 then Inl ''The \"input\" property is not an object''
                 else
                   (case getProperty classDef ''form'' of
                      None \<Rightarrow> Inr False
                    | Some formProperty \<Rightarrow>
                        if \<not> isBoolean formProperty then
                          Inl ''The \"form\" property is not a boolean''
                        else Inr (Boolean (initializer formProperty)))))"

definition parsing_action :: "string \<Rightarrow> RouteJSON \<Rightarrow> string" where
  "parsing_action grp route =
     ''Parsing route \"'' @ pattern route @ ''\" in group \"'' @ grp @ ''\"''"

definition validating_action :: "RouteJSON \<Rightarrow> ParsedRoute \<Rightarrow> string" where
  "validating_action route parsedRouteDraft =
     ''Validating route \"'' @ pattern route @ ''\" - \"'' @ method parsedRouteDraft @ ''\"''"

text \<open>The body of the loop over the routes of a group.\<close>

definition processRoute ::
  "Helpers \<Rightarrow> SourceFile list \<Rightarrow> string \<Rightarrow> State \<Rightarrow> RouteJSON \<Rightarrow> error + State"
where
  "processRoute h sourcesFiles grp s route =
     (case parseRoute h sourcesFiles grp route of
        Inl e \<Rightarrow> Inl e
      | Inr (Inl message) \<Rightarrow> Inr (skip s (parsing_action grp route) message)
      | Inr (Inr (parsedRouteDraft, routeSourceFile)) \<Rightarrow>
          (case collision (allParsedRoutes s) parsedRouteDraft of
             Some e \<Rightarrow> Inl e
           | None \<Rightarrow>
               (case validateController routeSourceFile of
                  Inl message \<Rightarrow>
                    Inr (skip s (validating_action route parsedRouteDraft) message)
                | Inr formFlag \<Rightarrow>
                    Inr (s\<lparr>parsedRoutes := parsedRoutes s @ [parsedRouteDraft\<lparr>form := formFlag\<rparr>],
                           allParsedRoutes :=
                             allParsedRoutes s @ [parsedRouteDraft\<lparr>form := formFlag\<rparr>]\<rparr>))))"

fun processRoutes ::
  "Helpers \<Rightarrow> SourceFile list \<Rightarrow> string \<Rightarrow> State \<Rightarrow> RouteJSON list \<Rightarrow> error + State"
where
  "processRoutes h sourcesFiles grp s [] = Inr s"
| "processRoutes h sourcesFiles grp s (route # rest) =
     (case processRoute h sourcesFiles grp s route of
        Inl e \<Rightarrow> Inl e
      | Inr s' \<Rightarrow> processRoutes h sourcesFiles grp s' rest)"

text \<open>
  The loop over the groups: each group starts with no routes of its own and ends with
  \<^verbatim>\<open>#writeSchemaFile(group, parsedRoutes)\<close>.
\<close>

fun processGroups ::
  "Helpers \<Rightarrow> SourceFile list \<Rightarrow> State \<Rightarrow> (string \<times> RouteJSON list) list \<Rightarrow> error + State"
where
  "processGroups h sourcesFiles s [] = Inr s"
| "processGroups h sourcesFiles s ((grp, rs) # rest) =
     (case processRoutes h sourcesFiles grp (s\<lparr>parsedRoutes := []\<rparr>) rs of
        Inl e \<Rightarrow> Inl e
      | Inr s' \<Rightarrow>
          processGroups h sourcesFiles
            (s'\<lparr>written := written s' @ [(grp, parsedRoutes s')]\<rparr>) rest)"

definition initial_State :: State where
  "initial_State = \<lparr>allParsedRoutes = [], parsedRoutes = [], skipped = [], written = []\<rparr>"

text \<open>
  \<^verbatim>\<open>run\<close>, from the route table to the schema files (the calls of the formatter, the
  type checker and the linter, which end the process when they fail, are left out).
\<close>

definition run ::
  "Helpers \<Rightarrow> FinesConfig option \<Rightarrow> SourceFile list \<Rightarrow> RouteJSON list \<Rightarrow> error + State"
where
  "run h rawConfig sourcesFiles routeTable =
     (case groupRoutes rawConfig routeTable of
        Inl e \<Rightarrow> Inl e
      | Inr routes \<Rightarrow> processGroups h sourcesFiles initial_State routes)"

text \<open>
  \<^verbatim>\<open>#writeSchemaFile\<close>: the line of a route in the exported \<^verbatim>\<open>routes\<close> object and
  the line of its type.
\<close>

definition routes_entry :: "ParsedRoute \<Rightarrow> string" where
  "routes_entry route =
     key (name route) @ '': register<'' @ type (name route) @ ''>({ form: '' @
     (if form route then ''true'' else ''false'') @ '', path: '' @ [CHR 0x27] @ path route @
     [CHR 0x27] @ '', method: '' @ [CHR 0x27] @ method route @ [CHR 0x27] @ '' }),''"

definition type_line :: "ParsedRoute \<Rightarrow> string" where
  "type_line route =
     ''export type '' @ type (name route) @ '' = InferController<(typeof import('' @
     [CHR 0x27] @ relative (controller route) @ [CHR 0x27] @ ''))['' @ [CHR 0x27] @
     ''default'' @ [CHR 0x27] @ '']>''"

section \<open>The statements of the specification\<close>

subsection \<open>Accepted routes\<close>

text \<open>No two routes share a \<^verbatim>\<open>key\<close> or a \<^verbatim>\<open>controller.path\<close>.\<close>

definition routes_unique :: "ParsedRoute list \<Rightarrow> bool" where
  "routes_unique rs =
     (distinct (map (\<lambda>r. key (name r)) rs) \<and>
      distinct (map (\<lambda>r. Controller.path (controller r)) rs))"

text \<open>
  A route that comes from a route of the table whose controller has a default-exported
  class with a \<^verbatim>\<open>handle\<close> property.
\<close>

definition from_validated ::
  "Helpers \<Rightarrow> SourceFile list \<Rightarrow> RouteJSON list \<Rightarrow> ParsedRoute \<Rightarrow> bool" where
  "from_validated h sfs table r =
     (\<exists>route grp d sf f classDef handleMethod.
        route \<in> set table \<and> parseRoute h sfs grp route = Inr (Inr (d, sf)) \<and>
        r = d\<lparr>form := f\<rparr> \<and> find isDefaultExport (classes sf) = Some classDef \<and>
        getProperty classDef ''handle'' = Some handleMethod)"

text \<open>
  The specification's \<^verbatim>\<open>form\<close> flag of a boolean \<^verbatim>\<open>form\<close> member, from the text of
  its initializer: the value of the declared literal initializer when there is one, and
  \<^verbatim>\<open>false\<close> otherwise.
\<close>

definition spec_form_flag :: "string option \<Rightarrow> bool" where
  "spec_form_flag declared = (declared = Some ''true'')"

subsection \<open>Path segments\<close>

text \<open>A segment that the loop over the path segments lets pass.\<close>

definition segment_accepted :: "string \<Rightarrow> bool" where
  "segment_accepted segment =
     (if prefix '':'' segment then match_param_segment segment
      else match_literal_segment segment)"

text \<open>The specification's literal segment: \<^verbatim>\<open>[a-z0-9-]+\<close>.\<close>

definition spec_literal_segment :: "string \<Rightarrow> bool" where
  "spec_literal_segment s =
     (s \<noteq> [] \<and> list_all (\<lambda>d. is_lower d \<or> is_digit d \<or> d = CHR ''-'') s)"

text \<open>A segment as the specification asks: a parameter of letters, or a literal segment.\<close>

definition spec_segment :: "string \<Rightarrow> bool" where
  "spec_segment segment =
     (if prefix '':'' segment then match_param_segment segment
      else spec_literal_segment segment)"

text \<open>The pieces of the template that the generator writes for a segment.\<close>

definition segment_pieces :: "string \<Rightarrow> piece list" where
  "segment_pieces segment =
     (if prefix '':'' segment then [Literal ''/'', Placeholder (tl segment)]
      else [Literal (''/'' @ segment)])"

subsection \<open>Route names\<close>

text \<open>
  The specification's words of the controller file name: the final path segment, with the
  mandatory suffix stripped and split on \<^verbatim>\<open>_\<close>; \<open>None\<close> when the file name does not
  end with the suffix.
\<close>

definition spec_controller_words :: "string \<Rightarrow> string list option" where
  "spec_controller_words p =
     (let fileName = last (split_char CHR ''/'' p) in
      if suffix ''_controller.ts'' fileName then
        Some (split_char CHR ''_'' (take (length fileName - length ''_controller.ts'') fileName))
      else None)"

text \<open>The text occurs in the string at a position before the last possible one.\<close>

definition occurs_before_end :: "string \<Rightarrow> string \<Rightarrow> bool" where
  "occurs_before_end pat s =
     list_ex (\<lambda>i. prefix pat (drop i s)) [0..<length s - length pat]"

text \<open>Deduplication that keeps the first occurrence of every element.\<close>

fun dedup_first :: "'a list \<Rightarrow> 'a list" where
  "dedup_first [] = []"
| "dedup_first (x # xs) = x # dedup_first (filter (\<lambda>y. y \<noteq> x) xs)"

text \<open>
  The specification's name pair of a route: the non-parameter tokens of the pattern (split
  on \<^verbatim>\<open>.\<close>, \<^verbatim>\<open>/\<close> and \<^verbatim>\<open>-\<close>), then the words of the controller file name, each
  token snake-cased, deduplicated in first-occurrence order and joined with single spaces;
  the key is the upper-snake-case of the phrase and the type its pascal-case with the
  suffix \<^verbatim>\<open>Route\<close>.
\<close>

definition spec_routeName :: "Helpers \<Rightarrow> string \<Rightarrow> string \<Rightarrow> RouteName option" where
  "spec_routeName h pat p =
     (case spec_controller_words p of
        None \<Rightarrow> None
      | Some ws \<Rightarrow>
          let tokens = filter (\<lambda>t. \<not> prefix '':'' t) (split_runs (\<lambda>c. c \<in> set ''./-'') pat) @ ws;
              phrase = join '' '' (dedup_first (map (snakeCase h) tokens))
          in Some \<lparr>key = toUpperCase (snakeCase h phrase),
                   type = pascalCase h phrase @ ''Route''\<rparr>)"

subsection \<open>Groups and their configuration\<close>


text \<open>
  The specification's group key (an identifier of lowercase alphanumeric characters and
  underscores) and group pattern (it starts and ends with \<^verbatim>\<open>/\<close> and its segments have
  lowercase alphanumeric characters and hyphens only).
\<close>

definition spec_group_key :: "string \<Rightarrow> bool" where
  "spec_group_key k =
     (k \<noteq> [] \<and> list_all (\<lambda>d. is_lower d \<or> is_digit d \<or> d = CHR ''_'') k)"

definition spec_group_pattern :: "string \<Rightarrow> bool" where
  "spec_group_pattern v =
     (prefix ''/'' v \<and> suffix ''/'' v \<and>
      list_all (list_all (\<lambda>d. is_lower d \<or> is_digit d \<or> d = CHR ''-''))
        (split_char CHR ''/'' v))"

text \<open>
  A stricter reading of the specification's group pattern: between the first and the last
  \<^verbatim>\<open>/\<close> there is at least one segment and every segment is a non-empty text of
  lowercase alphanumeric characters and hyphens.
\<close>

definition spec_group_pattern_strict :: "string \<Rightarrow> bool" where
  "spec_group_pattern_strict v =
     (prefix ''/'' v \<and> suffix ''/'' v \<and>
      butlast (tl (split_char CHR ''/'' v)) \<noteq> [] \<and>
      list_all (\<lambda>segment. segment \<noteq> [] \<and>
                  list_all (\<lambda>d. is_lower d \<or> is_digit d \<or> d = CHR ''-'') segment)
        (butlast (tl (split_char CHR ''/'' v))))"

text \<open>
  An entry that \<^verbatim>\<open>defineConfig\<close> accepts, in the specification's words: the key and the
  pattern are as the specification says, and the pattern has three characters or more.
\<close>

definition config_entry_ok :: "string \<times> string \<Rightarrow> bool" where
  "config_entry_ok e =
     (case e of (k, v) \<Rightarrow> spec_group_key k \<and> spec_group_pattern v \<and> 3 \<le> length v)"

text \<open>The messages of the two errors of \<^verbatim>\<open>defineConfig\<close>.\<close>

definition invalid_value_message :: "string \<Rightarrow> string \<Rightarrow> string" where
  "invalid_value_message k v =
     ''Invalid group \"'' @ k @ ''\" value: \"'' @ v @
     ''\", Only alphanumeric characters and hyphens are allowed with leading and trailing slashes''"

definition invalid_name_message :: "string \<Rightarrow> string" where
  "invalid_name_message k =
     ''Invalid group \"'' @ k @
     ''\" name, Only alphanumeric characters and underscores are allowed''"

section \<open>A small application\<close>

text \<open>
  Stand-ins for the string helpers of the framework, for running the generator on an
  example: the words of a text are its maximal runs of letters and digits.
\<close>

definition demo_words :: "string \<Rightarrow> string list" where
  "demo_words s =
     filter (\<lambda>w. w \<noteq> [])
       (split_runs (\<lambda>c. \<not> (is_lower c \<or> is_upper c \<or> is_digit c)) s)"

fun demo_capitalize :: "string \<Rightarrow> string" where
  "demo_capitalize [] = []"
| "demo_capitalize (c # cs) = toUpperCase_char c # toLowerCase cs"

definition demo_helpers :: Helpers where
  "demo_helpers =
     \<lparr>snakeCase = (\<lambda>s. join ''_'' (map toLowerCase (demo_words s))),
      pascalCase = (\<lambda>s. concat (map demo_capitalize (demo_words s))),
      getRelativePath = (\<lambda>grp file. ''../..'' @ file)\<rparr>"

text \<open>
  Four controllers, each a default-exported class: two with a \<^verbatim>\<open>handle\<close> member (the
  second of them declares \<^verbatim>\<open>form: boolean = false\<close>), and two without.
\<close>

definition demo_property :: PropertyDeclaration where
  "demo_property = \<lparr>isObject = False, isBoolean = False, initializer = None\<rparr>"

definition demo_controller :: "string \<Rightarrow> (string \<times> PropertyDeclaration) list \<Rightarrow> SourceFile" where
  "demo_controller file members =
     \<lparr>filePath = file,
      classes = [\<lparr>isDefaultExport = True, isClass = True, properties = members\<rparr>]\<rparr>"

definition demo_sources :: "SourceFile list" where
  "demo_sources =
     [demo_controller ''/app/controllers/users_controller.ts'' [(''handle'', demo_property)],
      demo_controller ''/app/admin/users_controller.ts'' [(''input'', demo_property)],
      demo_controller ''/app/controllers/posts/list_controller.ts''
        [(''handle'', demo_property),
         (''form'', demo_property\<lparr>isBoolean := True, initializer := Some ''false''\<rparr>)],
      demo_controller ''/app/controllers/ping_controller.ts'' [(''input'', demo_property)]]"

text \<open>A controller file whose name has the suffix twice.\<close>

definition demo_odd_path :: string where
  "demo_odd_path = ''../../app/controllers/x_controller.ts.old_controller.ts''"

text \<open>Routes, route tables and configurations.\<close>

definition demo_route :: "string \<Rightarrow> string \<Rightarrow> RouteJSON" where
  "demo_route pat moduleNameOrPath =
     \<lparr>pattern = pat, methods = [''GET'', ''HEAD''],
      handler = HandlerReference moduleNameOrPath\<rparr>"

definition demo_table :: "RouteJSON list" where
  "demo_table =
     [demo_route ''/users'' ''#controllers/users_controller'',
      demo_route ''/api/posts/:postId'' ''#controllers/posts/list_controller'',
      demo_route ''/ping'' ''#controllers/ping_controller'']"

definition demo_clash_table :: "RouteJSON list" where
  "demo_clash_table =
     [demo_route ''/users'' ''#controllers/users_controller'',
      demo_route ''/users'' ''#admin/users_controller'']"

definition demo_config :: FinesConfig where
  "demo_config = \<lparr>groups = [(''api'', ''/api/''), (''2'', ''/api/v2/'')]\<rparr>"


text \<open>
  The accepted route of \<^verbatim>\<open>/users\<close>, the state of the run after it, and the drafts of
  two further routes.
\<close>

definition demo_users_route :: ParsedRoute where
  "demo_users_route =
     \<lparr>path = ''/users'', method = ''GET'', form = False,
      name = \<lparr>key = ''USERS'', type = ''UsersRoute''\<rparr>,
      controller = \<lparr>relative = ''../../app/controllers/users_controller.ts'',
                    Controller.path = ''#controllers/users_controller''\<rparr>\<rparr>"

definition demo_state :: State where
  "demo_state = initial_State\<lparr>parsedRoutes := [demo_users_route],
                               allParsedRoutes := [demo_users_route]\<rparr>"

definition demo_admin_draft :: ParsedRoute where
  "demo_admin_draft =
     \<lparr>path = ''/users'', method = ''GET'', form = False,
      name = \<lparr>key = ''USERS'', type = ''UsersRoute''\<rparr>,
      controller = \<lparr>relative = ''../../app/admin/users_controller.ts'',
                    Controller.path = ''#admin/users_controller''\<rparr>\<rparr>"

definition demo_ping_draft :: ParsedRoute where
  "demo_ping_draft =
     \<lparr>path = ''/ping'', method = ''GET'', form = False,
      name = \<lparr>key = ''PING'', type = ''PingRoute''\<rparr>,
      controller = \<lparr>relative = ''../../app/controllers/ping_controller.ts'',
                    Controller.path = ''#controllers/ping_controller''\<rparr>\<rparr>"

text \<open>A template of two placeholders.\<close>

definition demo_pieces :: "piece list" where
  "demo_pieces =
     [Literal ''/users/'', Placeholder ''id'', Literal ''/posts/'', Placeholder ''postId'']"

section \<open>Method resolution: the last method that is not HEAD\<close>

lemma getMethod_loop_last:
  "getMethod_loop result ms =
     (if filter (\<lambda>m. toLowerCase m \<noteq> ''head'') ms = [] then result
      else toUpperCase (toLowerCase (last (filter (\<lambda>m. toLowerCase m \<noteq> ''head'') ms))))"
  by (induction ms arbitrary: result) (simp_all add: Let_def)

lemma case_examples:
  "toLowerCase ''GET'' = ''get''" "toLowerCase ''HEAD'' = ''head''"
  "toLowerCase ''POST'' = ''post''" "toLowerCase ''Head'' = ''head''"
  "toUpperCase ''get'' = ''GET''" "toUpperCase ''post'' = ''POST''"
  by (simp_all add: toLowerCase_def toLowerCase_char_def toUpperCase_def toUpperCase_char_def
      upper_letters_def lower_letters_def)

text \<open>
  C5. The resolved method is \<^verbatim>\<open>GET\<close> when every declared method is \<^verbatim>\<open>HEAD\<close> in
  some spelling of upper and lower case (or none is declared), and otherwise it is the last
  declared method that is not \<^verbatim>\<open>HEAD\<close>, in capital letters: \<^verbatim>\<open>["GET","HEAD"]\<close>
  gives \<^verbatim>\<open>GET\<close>, \<^verbatim>\<open>["POST","HEAD"]\<close> gives \<^verbatim>\<open>POST\<close> and
  \<^verbatim>\<open>["GET","POST"]\<close> gives \<^verbatim>\<open>POST\<close>.
\<close>

theorem C5_getMethod_last_non_head_wins:
  "getMethod ms =
     (if filter (\<lambda>m. toLowerCase m \<noteq> ''head'') ms = [] then ''GET''
      else toUpperCase (toLowerCase (last (filter (\<lambda>m. toLowerCase m \<noteq> ''head'') ms))))
   \<and> getMethod [''GET'', ''HEAD''] = ''GET''
   \<and> getMethod [''POST'', ''HEAD''] = ''POST''
   \<and> getMethod [''GET'', ''POST''] = ''POST''
   \<and> getMethod [''POST'', ''Head''] = ''POST''"
  unfolding getMethod_def
  by (simp add: getMethod_loop_last case_examples)

section \<open>Accepted routes are unique\<close>

lemma collision_None_iff:
  "collision rs d = None \<longleftrightarrow>
     (\<forall>p \<in> set rs. Controller.path (controller p) \<noteq> Controller.path (controller d) \<and>
                    key (name p) \<noteq> key (name d))"
  by (induction rs) auto

lemma routes_unique_snoc:
  "routes_unique (rs @ [r]) \<longleftrightarrow>
     routes_unique rs \<and>
     (\<forall>p \<in> set rs. Controller.path (controller p) \<noteq> Controller.path (controller r) \<and>
                    key (name p) \<noteq> key (name r))"
  unfolding routes_unique_def by (simp add: image_iff) metis

lemma skip_fields [simp]:
  "allParsedRoutes (skip s a m) = allParsedRoutes s"
  "parsedRoutes (skip s a m) = parsedRoutes s"
  "written (skip s a m) = written s"
  "skipped (skip s a m) = skipped s @ [(a, m)]"
  by (simp_all add: skip_def)

lemma processRoute_cases:
  assumes "processRoute h sfs grp s route = Inr s'"
  shows "(\<exists>a m. s' = skip s a m) \<or>
         (\<exists>d sf f. parseRoute h sfs grp route = Inr (Inr (d, sf)) \<and>
            collision (allParsedRoutes s) d = None \<and> validateController sf = Inr f \<and>
            s' = s\<lparr>parsedRoutes := parsedRoutes s @ [d\<lparr>form := f\<rparr>],
                   allParsedRoutes := allParsedRoutes s @ [d\<lparr>form := f\<rparr>]\<rparr>)"
  using assms unfolding processRoute_def
  by (auto split: sum.splits option.splits prod.splits)

lemma processRoute_unique:
  assumes "routes_unique (allParsedRoutes s)" and "processRoute h sfs grp s route = Inr s'"
  shows "routes_unique (allParsedRoutes s')"
  using processRoute_cases[OF assms(2)] assms(1)
  by (auto simp: routes_unique_snoc collision_None_iff)

lemma processRoute_written:
  assumes "processRoute h sfs grp s route = Inr s'"
  shows "written s' = written s"
  using processRoute_cases[OF assms] by auto

lemma processRoute_split:
  assumes "allParsedRoutes s = pre @ parsedRoutes s" and "processRoute h sfs grp s route = Inr s'"
  shows "allParsedRoutes s' = pre @ parsedRoutes s'"
  using processRoute_cases[OF assms(2)] assms(1) by auto

lemma processRoutes_unique:
  "routes_unique (allParsedRoutes s) \<Longrightarrow> processRoutes h sfs grp s rs = Inr s' \<Longrightarrow>
   routes_unique (allParsedRoutes s')"
proof (induction rs arbitrary: s)
  case Nil
  then show ?case by simp
next
  case (Cons r rs)
  then show ?case
    by (auto split: sum.splits dest: processRoute_unique)
qed

lemma processRoutes_written:
  "processRoutes h sfs grp s rs = Inr s' \<Longrightarrow> written s' = written s"
  by (induction rs arbitrary: s) (auto split: sum.splits dest: processRoute_written)

lemma processRoutes_split:
  "allParsedRoutes s = pre @ parsedRoutes s \<Longrightarrow> processRoutes h sfs grp s rs = Inr s' \<Longrightarrow>
   allParsedRoutes s' = pre @ parsedRoutes s'"
  by (induction rs arbitrary: s) (auto split: sum.splits dest: processRoute_split)

lemma processGroups_unique:
  "routes_unique (allParsedRoutes s) \<Longrightarrow> processGroups h sfs s gs = Inr s' \<Longrightarrow>
   routes_unique (allParsedRoutes s')"
proof (induction gs arbitrary: s)
  case Nil
  then show ?case by simp
next
  case (Cons g gs)
  obtain grp rs where g: "g = (grp, rs)" by (cases g)
  from Cons.prems(2) obtain s1 where
    s1: "processRoutes h sfs grp (s\<lparr>parsedRoutes := []\<rparr>) rs = Inr s1" and
    rest: "processGroups h sfs (s1\<lparr>written := written s1 @ [(grp, parsedRoutes s1)]\<rparr>) gs = Inr s'"
    by (auto simp: g split: sum.splits)
  from processRoutes_unique[OF _ s1] Cons.prems(1) have "routes_unique (allParsedRoutes s1)"
    by simp
  with Cons.IH[OF _ rest] show ?case by simp
qed

lemma processGroups_written:
  "allParsedRoutes s = concat (map snd (written s)) \<Longrightarrow> processGroups h sfs s gs = Inr s' \<Longrightarrow>
   allParsedRoutes s' = concat (map snd (written s'))"
proof (induction gs arbitrary: s)
  case Nil
  then show ?case by simp
next
  case (Cons g gs)
  obtain grp rs where g: "g = (grp, rs)" by (cases g)
  from Cons.prems(2) obtain s1 where
    s1: "processRoutes h sfs grp (s\<lparr>parsedRoutes := []\<rparr>) rs = Inr s1" and
    rest: "processGroups h sfs (s1\<lparr>written := written s1 @ [(grp, parsedRoutes s1)]\<rparr>) gs = Inr s'"
    by (auto simp: g split: sum.splits)
  have "allParsedRoutes s1 = allParsedRoutes s @ parsedRoutes s1"
    using processRoutes_split[OF _ s1, of "allParsedRoutes s"] by simp
  moreover have "written s1 = written s"
    using processRoutes_written[OF s1] by simp
  ultimately have "allParsedRoutes (s1\<lparr>written := written s1 @ [(grp, parsedRoutes s1)]\<rparr>) =
      concat (map snd (written (s1\<lparr>written := written s1 @ [(grp, parsedRoutes s1)]\<rparr>)))"
    using Cons.prems(1) by simp
  from Cons.IH[OF this rest] show ?case .
qed

text \<open>
  C1. The accepted routes of a run never share a \<^verbatim>\<open>key\<close> or a
  \<^verbatim>\<open>controller.path\<close>: when the routes accepted so far are duplicate-free and the
  loop body returns for the next route, they are duplicate-free afterwards; when the draft
  of a route has the \<^verbatim>\<open>key\<close> or the \<^verbatim>\<open>controller.path\<close> of a route accepted
  before, the loop body throws; and when the run returns, the routes accepted in it are
  duplicate-free and they are the routes of the schema files written, group after group.
\<close>

theorem C1_accepted_routes_are_unique:
  "(routes_unique (allParsedRoutes s) \<and> processRoute h sfs grp s route = Inr s'
      \<longrightarrow> routes_unique (allParsedRoutes s'))
   \<and> (parseRoute h sfs grp route = Inr (Inr (d, sf)) \<and> p \<in> set (allParsedRoutes s) \<and>
        (key (name p) = key (name d) \<or>
         Controller.path (controller p) = Controller.path (controller d))
      \<longrightarrow> (\<exists>e. processRoute h sfs grp s route = Inl e))
   \<and> (run h rawConfig sfs routeTable = Inr s''
      \<longrightarrow> routes_unique (allParsedRoutes s'') \<and>
          concat (map snd (written s'')) = allParsedRoutes s'')"
proof (intro conjI impI)
  assume "routes_unique (allParsedRoutes s) \<and> processRoute h sfs grp s route = Inr s'"
  then show "routes_unique (allParsedRoutes s')"
    using processRoute_unique by blast
next
  assume a: "parseRoute h sfs grp route = Inr (Inr (d, sf)) \<and> p \<in> set (allParsedRoutes s) \<and>
        (key (name p) = key (name d) \<or>
         Controller.path (controller p) = Controller.path (controller d))"
  then have "collision (allParsedRoutes s) d \<noteq> None"
    by (auto simp: collision_None_iff)
  then show "\<exists>e. processRoute h sfs grp s route = Inl e"
    using a by (auto simp: processRoute_def)
next
  assume r: "run h rawConfig sfs routeTable = Inr s''"
  then obtain gs where gs: "processGroups h sfs initial_State gs = Inr s''"
    by (auto simp: run_def split: sum.splits)
  show "routes_unique (allParsedRoutes s'')"
    using processGroups_unique[OF _ gs] by (simp add: initial_State_def routes_unique_def)
  show "concat (map snd (written s'')) = allParsedRoutes s''"
    using processGroups_written[OF _ gs] by (simp add: initial_State_def)
qed


theorem C1_witness:
  "routes_unique (allParsedRoutes initial_State)
   \<and> processRoute demo_helpers demo_sources ''internal'' initial_State
        (demo_route ''/users'' ''#controllers/users_controller'') = Inr demo_state
   \<and> routes_unique (allParsedRoutes demo_state)
   \<and> parseRoute demo_helpers demo_sources ''internal''
        (demo_route ''/users'' ''#admin/users_controller'') =
       Inr (Inr (demo_admin_draft, demo_sources ! 1))
   \<and> demo_users_route \<in> set (allParsedRoutes demo_state)
   \<and> key (name demo_users_route) = key (name demo_admin_draft)
   \<and> isl (processRoute demo_helpers demo_sources ''internal'' demo_state
        (demo_route ''/users'' ''#admin/users_controller''))
   \<and> (case run demo_helpers (Some demo_config) demo_sources demo_table of
        Inl e \<Rightarrow> False
      | Inr s \<Rightarrow> routes_unique (allParsedRoutes s) \<and> length (allParsedRoutes s) = 2 \<and>
          concat (map snd (written s)) = allParsedRoutes s)"
proof -
  have a1: "routes_unique (allParsedRoutes initial_State)"
    by code_simp
  have a2: "processRoute demo_helpers demo_sources ''internal'' initial_State
        (demo_route ''/users'' ''#controllers/users_controller'') = Inr demo_state"
    by code_simp
  have b1: "parseRoute demo_helpers demo_sources ''internal''
        (demo_route ''/users'' ''#admin/users_controller'') =
       Inr (Inr (demo_admin_draft, demo_sources ! 1))"
    by code_simp
  have b2: "demo_users_route \<in> set (allParsedRoutes demo_state)"
    by code_simp
  have b3: "key (name demo_users_route) = key (name demo_admin_draft)"
    by code_simp
  have c1: "\<not> isl (run demo_helpers (Some demo_config) demo_sources demo_table)"
    by code_simp
  have c2: "length (allParsedRoutes (projr (run demo_helpers (Some demo_config) demo_sources demo_table))) = 2"
    by code_simp
  obtain s where s: "run demo_helpers (Some demo_config) demo_sources demo_table = Inr s"
    using c1 by (cases "run demo_helpers (Some demo_config) demo_sources demo_table") auto
  from C1_accepted_routes_are_unique
    [where s = initial_State and h = demo_helpers and sfs = demo_sources and grp = "''internal''"
       and route = "demo_route ''/users'' ''#controllers/users_controller''" and s' = demo_state
       and rawConfig = "Some demo_config" and routeTable = demo_table and s'' = s]
  have d1: "routes_unique (allParsedRoutes demo_state)"
    and d3: "routes_unique (allParsedRoutes s) \<and> concat (map snd (written s)) = allParsedRoutes s"
    using a1 a2 s by blast+
  from C1_accepted_routes_are_unique
    [where s = demo_state and h = demo_helpers and sfs = demo_sources and grp = "''internal''"
       and route = "demo_route ''/users'' ''#admin/users_controller''" and d = demo_admin_draft
       and sf = "demo_sources ! 1" and p = demo_users_route]
  have "\<exists>e. processRoute demo_helpers demo_sources ''internal'' demo_state
        (demo_route ''/users'' ''#admin/users_controller'') = Inl e"
    using b1 b2 b3 by blast
  then have d2: "isl (processRoute demo_helpers demo_sources ''internal'' demo_state
        (demo_route ''/users'' ''#admin/users_controller''))"
    by auto
  show ?thesis
    using a1 a2 b1 b2 b3 d1 d2 d3 c2 s by simp
qed

section \<open>Collisions are checked before the controller is validated\<close>

lemma collision_Some_if:
  assumes "p \<in> set rs"
    and "key (name p) = key (name d) \<or>
         Controller.path (controller p) = Controller.path (controller d)"
  shows "\<exists>e. collision rs d = Some e"
proof (cases "collision rs d")
  case None
  with assms show ?thesis by (auto simp: collision_None_iff)
next
  case (Some e)
  then show ?thesis by simp
qed

lemma processRoutes_append:
  "processRoutes h sfs grp s (xs @ ys) =
     (case processRoutes h sfs grp s xs of
        Inl e \<Rightarrow> Inl e
      | Inr s' \<Rightarrow> processRoutes h sfs grp s' ys)"
  by (induction xs arbitrary: s) (auto split: sum.splits)

lemma processGroups_append:
  "processGroups h sfs s (xs @ ys) =
     (case processGroups h sfs s xs of
        Inl e \<Rightarrow> Inl e
      | Inr s' \<Rightarrow> processGroups h sfs s' ys)"
  by (induction xs arbitrary: s) (auto split: sum.splits)

text \<open>
  C10. The collision checks run before the validation of the controller: when the run has
  come to a route whose draft has the \<^verbatim>\<open>key\<close> or the \<^verbatim>\<open>controller.path\<close> of a
  route accepted before, the loop body throws the error of the collision check and the
  loops over the routes and over the groups end with that error, whatever the source file
  of the controller holds, also when the validation would have skipped the route (as in
  the example, where the class has no \<^verbatim>\<open>handle\<close> member).
\<close>

theorem C10_collision_checked_before_validation:
  assumes "processGroups h sfs s\<^sub>0 before = Inr s\<^sub>1"
    and "processRoutes h sfs grp (s\<^sub>1\<lparr>parsedRoutes := []\<rparr>) pre = Inr s"
    and "parseRoute h sfs grp route = Inr (Inr (d, sf))"
    and "p \<in> set (allParsedRoutes s)"
    and "key (name p) = key (name d) \<or>
         Controller.path (controller p) = Controller.path (controller d)"
  shows "\<exists>e. collision (allParsedRoutes s) d = Some e \<and>
             processRoute h sfs grp s route = Inl e \<and>
             processGroups h sfs s\<^sub>0 (before @ (grp, pre @ route # rest) # after) = Inl e"
proof -
  from collision_Some_if[OF assms(4,5)] obtain e
    where e: "collision (allParsedRoutes s) d = Some e" by blast
  then have r: "processRoute h sfs grp s route = Inl e"
    using assms(3) by (simp add: processRoute_def)
  then have "processRoutes h sfs grp (s\<^sub>1\<lparr>parsedRoutes := []\<rparr>) (pre @ route # rest) = Inl e"
    using assms(2) by (simp add: processRoutes_append)
  then have "processGroups h sfs s\<^sub>0 (before @ (grp, pre @ route # rest) # after) = Inl e"
    using assms(1) by (simp add: processGroups_append)
  with e r show ?thesis by blast
qed

theorem C10_witness:
  "processGroups demo_helpers demo_sources initial_State [] = Inr initial_State
   \<and> processRoutes demo_helpers demo_sources ''internal'' (initial_State\<lparr>parsedRoutes := []\<rparr>)
        [demo_route ''/users'' ''#controllers/users_controller''] = Inr demo_state
   \<and> parseRoute demo_helpers demo_sources ''internal''
        (demo_route ''/users'' ''#admin/users_controller'') =
       Inr (Inr (demo_admin_draft, demo_sources ! 1))
   \<and> demo_users_route \<in> set (allParsedRoutes demo_state)
   \<and> key (name demo_users_route) = key (name demo_admin_draft)
   \<and> validateController (demo_sources ! 1) =
       Inl ''We were not able to find the \"handle\" method''
   \<and> groupRoutes (Some demo_config) demo_clash_table = Inr [(''internal'', demo_clash_table)]
   \<and> run demo_helpers (Some demo_config) demo_sources demo_clash_table =
       Inl (Error ''The controller key has already been registered''
              (CauseRoutes demo_admin_draft demo_users_route))"
proof -
  have a1: "processGroups demo_helpers demo_sources initial_State [] = Inr initial_State"
    by simp
  have a2: "processRoutes demo_helpers demo_sources ''internal'' (initial_State\<lparr>parsedRoutes := []\<rparr>)
        [demo_route ''/users'' ''#controllers/users_controller''] = Inr demo_state"
    by code_simp
  have b1: "parseRoute demo_helpers demo_sources ''internal''
        (demo_route ''/users'' ''#admin/users_controller'') =
       Inr (Inr (demo_admin_draft, demo_sources ! 1))"
    by code_simp
  have b2: "demo_users_route \<in> set (allParsedRoutes demo_state)"
    by code_simp
  have b3: "key (name demo_users_route) = key (name demo_admin_draft)"
    by code_simp
  have b4: "validateController (demo_sources ! 1) =
       Inl ''We were not able to find the \"handle\" method''"
    by code_simp
  have b5: "collision (allParsedRoutes demo_state) demo_admin_draft =
       Some (Error ''The controller key has already been registered''
              (CauseRoutes demo_admin_draft demo_users_route))"
    by code_simp
  have g: "groupRoutes (Some demo_config) demo_clash_table = Inr [(''internal'', demo_clash_table)]"
    by code_simp
  have t: "demo_clash_table =
      [demo_route ''/users'' ''#controllers/users_controller''] @
      demo_route ''/users'' ''#admin/users_controller'' # []"
    by (simp add: demo_clash_table_def)
  from C10_collision_checked_before_validation[OF a1 a2 b1 b2, of "[]" "[]"] b3 b5
  have "processGroups demo_helpers demo_sources initial_State
          [(''internal'', demo_clash_table)] =
       Inl (Error ''The controller key has already been registered''
              (CauseRoutes demo_admin_draft demo_users_route))"
    unfolding t by auto
  then have "run demo_helpers (Some demo_config) demo_sources demo_clash_table =
       Inl (Error ''The controller key has already been registered''
              (CauseRoutes demo_admin_draft demo_users_route))"
    by (simp add: run_def g)
  with a1 a2 b1 b2 b3 b4 g show ?thesis by (intro conjI)
qed

section \<open>Routes whose controller has no handle member\<close>

text \<open>
  C9, as stated, fails: the second route of the example has a controller whose
  default-exported class has no \<^verbatim>\<open>handle\<close> member, and the run does not continue,
  because the route has the key of the first one and the collision check comes first.
\<close>

theorem C9_counterexample:
  "parseRoute demo_helpers demo_sources ''internal''
        (demo_route ''/users'' ''#admin/users_controller'') =
       Inr (Inr (demo_admin_draft, demo_sources ! 1))
   \<and> find isDefaultExport (classes (demo_sources ! 1)) =
       Some \<lparr>isDefaultExport = True, isClass = True,
             properties = [(''input'', demo_property)]\<rparr>
   \<and> getProperty \<lparr>isDefaultExport = True, isClass = True,
             properties = [(''input'', demo_property)]\<rparr> ''handle'' = None
   \<and> run demo_helpers (Some demo_config) demo_sources demo_clash_table =
       Inl (Error ''The controller key has already been registered''
              (CauseRoutes demo_admin_draft demo_users_route))"
  by code_simp


lemma validateController_handle:
  assumes "validateController sf = Inr f"
  shows "\<exists>classDef handleMethod. find isDefaultExport (classes sf) = Some classDef \<and>
           getProperty classDef ''handle'' = Some handleMethod"
  using assms unfolding validateController_def
  by (auto split: option.splits if_splits)

lemma processRoute_from_validated:
  assumes "processRoute h sfs grp s route = Inr s'" and "route \<in> set table"
    and "list_all (from_validated h sfs table) (allParsedRoutes s)"
  shows "list_all (from_validated h sfs table) (allParsedRoutes s')"
proof -
  from processRoute_cases[OF assms(1)] show ?thesis
  proof (elim disjE exE conjE)
    fix a m assume "s' = skip s a m"
    with assms(3) show ?thesis by simp
  next
    fix d sf f
    assume p: "parseRoute h sfs grp route = Inr (Inr (d, sf))"
      and v: "validateController sf = Inr f"
      and s': "s' = s\<lparr>parsedRoutes := parsedRoutes s @ [d\<lparr>form := f\<rparr>],
                   allParsedRoutes := allParsedRoutes s @ [d\<lparr>form := f\<rparr>]\<rparr>"
    from validateController_handle[OF v] p assms(2)
    have "from_validated h sfs table (d\<lparr>form := f\<rparr>)"
      unfolding from_validated_def by blast
    with assms(3) s' show ?thesis by simp
  qed
qed

lemma processRoutes_from_validated:
  "processRoutes h sfs grp s rs = Inr s' \<Longrightarrow> set rs \<subseteq> set table \<Longrightarrow>
   list_all (from_validated h sfs table) (allParsedRoutes s) \<Longrightarrow>
   list_all (from_validated h sfs table) (allParsedRoutes s')"
proof (induction rs arbitrary: s)
  case Nil
  then show ?case by simp
next
  case (Cons r rs)
  from Cons.prems(1) obtain s1 where
    s1: "processRoute h sfs grp s r = Inr s1" and rest: "processRoutes h sfs grp s1 rs = Inr s'"
    by (auto split: sum.splits)
  from processRoute_from_validated[OF s1 _ Cons.prems(3)] Cons.prems(2)
  have "list_all (from_validated h sfs table) (allParsedRoutes s1)" by simp
  from Cons.IH[OF rest _ this] Cons.prems(2) show ?case by simp
qed

lemma processGroups_from_validated:
  "processGroups h sfs s gs = Inr s' \<Longrightarrow> set (concat (map snd gs)) \<subseteq> set table \<Longrightarrow>
   list_all (from_validated h sfs table) (allParsedRoutes s) \<Longrightarrow>
   list_all (from_validated h sfs table) (allParsedRoutes s')"
proof (induction gs arbitrary: s)
  case Nil
  then show ?case by simp
next
  case (Cons g gs)
  obtain grp rs where g: "g = (grp, rs)" by (cases g)
  from Cons.prems(1) obtain s1 where
    s1: "processRoutes h sfs grp (s\<lparr>parsedRoutes := []\<rparr>) rs = Inr s1" and
    rest: "processGroups h sfs (s1\<lparr>written := written s1 @ [(grp, parsedRoutes s1)]\<rparr>) gs = Inr s'"
    by (auto simp: g split: sum.splits)
  from processRoutes_from_validated[OF s1, of table] Cons.prems(2,3)
  have "list_all (from_validated h sfs table) (allParsedRoutes s1)" by (simp add: g)
  from Cons.IH[OF rest] this Cons.prems(2) show ?case by simp
qed

lemma set_map_push:
  "set (concat (map snd (map_push m g r))) = insert r (set (concat (map snd m)))"
  by (induction m g r rule: map_push.induct) auto

lemma set_groupRoutes_loop:
  "set (concat (map snd (groupRoutes_loop config result routes))) =
     set (concat (map snd result)) \<union> set routes"
  by (induction routes arbitrary: result) (simp_all add: set_map_push del: set_concat)

lemma run_from_validated:
  assumes "run h rawConfig sfs table = Inr s"
  shows "list_all (from_validated h sfs table) (allParsedRoutes s)"
proof -
  from assms obtain config where
    gs: "processGroups h sfs initial_State (groupRoutes_loop config [] table) = Inr s"
    by (auto simp: run_def groupRoutes_def split: sum.splits option.splits)
  from processGroups_from_validated[OF gs, of table] show ?thesis
    by (simp add: set_groupRoutes_loop initial_State_def del: set_concat)
qed

text \<open>
  C9, amended. A route whose controller's default-exported class has no \<^verbatim>\<open>handle\<close>
  member, and whose draft was built and collides with no route accepted before, is reported
  as skipped with the reason, is added to no list of routes, and the loop goes on with the
  next route; and every route of the schema files written by a run that returns comes from
  a route whose controller has a \<^verbatim>\<open>handle\<close> member.
\<close>

theorem C9_missing_handle_is_skipped:
  assumes "parseRoute h sfs grp route = Inr (Inr (d, sf))"
    and "collision (allParsedRoutes s) d = None"
    and "find isDefaultExport (classes sf) = Some classDef"
    and "isClass classDef"
    and "getProperty classDef ''handle'' = None"
  shows "processRoute h sfs grp s route =
           Inr (skip s (validating_action route d)
                  ''We were not able to find the \"handle\" method'')
         \<and> skipped (skip s (validating_action route d)
                  ''We were not able to find the \"handle\" method'') =
             skipped s @ [(validating_action route d,
                  ''We were not able to find the \"handle\" method'')]
         \<and> parsedRoutes (skip s (validating_action route d)
                  ''We were not able to find the \"handle\" method'') = parsedRoutes s
         \<and> allParsedRoutes (skip s (validating_action route d)
                  ''We were not able to find the \"handle\" method'') = allParsedRoutes s
         \<and> written (skip s (validating_action route d)
                  ''We were not able to find the \"handle\" method'') = written s
         \<and> processRoutes h sfs grp s (route # rest) =
             processRoutes h sfs grp
               (skip s (validating_action route d)
                  ''We were not able to find the \"handle\" method'') rest
         \<and> (run h rawConfig sfs table = Inr s'' \<longrightarrow>
               list_all (from_validated h sfs table) (concat (map snd (written s''))))"
proof -
  have "validateController sf = Inl ''We were not able to find the \"handle\" method''"
    using assms(3-5) by (simp add: validateController_def)
  then have "processRoute h sfs grp s route =
           Inr (skip s (validating_action route d)
                  ''We were not able to find the \"handle\" method'')"
    using assms(1,2) by (simp add: processRoute_def)
  moreover have "list_all (from_validated h sfs table) (concat (map snd (written s'')))"
    if r: "run h rawConfig sfs table = Inr s''"
  proof -
    from r obtain gs where gs: "processGroups h sfs initial_State gs = Inr s''"
      by (auto simp: run_def split: sum.splits)
    from processGroups_written[OF _ gs]
    have "concat (map snd (written s'')) = allParsedRoutes s''"
      by (simp add: initial_State_def)
    with run_from_validated[OF r] show ?thesis by simp
  qed
  ultimately show ?thesis by simp
qed

theorem C9_witness:
  "parseRoute demo_helpers demo_sources ''internal''
        (demo_route ''/ping'' ''#controllers/ping_controller'') =
       Inr (Inr (demo_ping_draft, demo_sources ! 3))
   \<and> collision (allParsedRoutes demo_state) demo_ping_draft = None
   \<and> find isDefaultExport (classes (demo_sources ! 3)) =
       Some \<lparr>isDefaultExport = True, isClass = True,
             properties = [(''input'', demo_property)]\<rparr>
   \<and> getProperty \<lparr>isDefaultExport = True, isClass = True,
             properties = [(''input'', demo_property)]\<rparr> ''handle'' = None
   \<and> processRoute demo_helpers demo_sources ''internal'' demo_state
        (demo_route ''/ping'' ''#controllers/ping_controller'') =
       Inr (demo_state\<lparr>skipped :=
              [(''Validating route \"/ping\" - \"GET\"'',
                ''We were not able to find the \"handle\" method'')]\<rparr>)
   \<and> (case run demo_helpers (Some demo_config) demo_sources demo_table of
        Inl e \<Rightarrow> False
      | Inr s \<Rightarrow>
          list_all (from_validated demo_helpers demo_sources demo_table)
            (concat (map snd (written s))) \<and>
          map (\<lambda>r. key (name r)) (concat (map snd (written s))) = [''USERS'', ''API_POSTS_LIST''] \<and>
          map fst (skipped s) = [''Validating route \"/ping\" - \"GET\"''])"
proof -
  have b1: "parseRoute demo_helpers demo_sources ''internal''
        (demo_route ''/ping'' ''#controllers/ping_controller'') =
       Inr (Inr (demo_ping_draft, demo_sources ! 3))"
    by code_simp
  have b2: "collision (allParsedRoutes demo_state) demo_ping_draft = None"
    by code_simp
  have b3: "find isDefaultExport (classes (demo_sources ! 3)) =
       Some \<lparr>isDefaultExport = True, isClass = True,
             properties = [(''input'', demo_property)]\<rparr>"
    by code_simp
  have b4: "isClass \<lparr>isDefaultExport = True, isClass = True,
             properties = [(''input'', demo_property)]\<rparr>"
    by simp
  have b5: "getProperty \<lparr>isDefaultExport = True, isClass = True,
             properties = [(''input'', demo_property)]\<rparr> ''handle'' = None"
    by code_simp
  have b6: "skip demo_state
        (validating_action (demo_route ''/ping'' ''#controllers/ping_controller'') demo_ping_draft)
        ''We were not able to find the \"handle\" method'' =
      demo_state\<lparr>skipped :=
              [(''Validating route \"/ping\" - \"GET\"'',
                ''We were not able to find the \"handle\" method'')]\<rparr>"
    by code_simp
  have c1: "\<not> isl (run demo_helpers (Some demo_config) demo_sources demo_table)"
    by code_simp
  have c2: "map (\<lambda>r. key (name r)) (concat (map snd (written
        (projr (run demo_helpers (Some demo_config) demo_sources demo_table))))) =
        [''USERS'', ''API_POSTS_LIST'']"
    by code_simp
  have c3: "map fst (skipped (projr (run demo_helpers (Some demo_config) demo_sources demo_table))) =
        [''Validating route \"/ping\" - \"GET\"'']"
    by code_simp
  obtain s where s: "run demo_helpers (Some demo_config) demo_sources demo_table = Inr s"
    using c1 by (cases "run demo_helpers (Some demo_config) demo_sources demo_table") auto
  from C9_missing_handle_is_skipped[OF b1 b2 b3 b4 b5,
      where rawConfig = "Some demo_config" and table = demo_table and s'' = s and rest = "[]"] s b6
  have "processRoute demo_helpers demo_sources ''internal'' demo_state
        (demo_route ''/ping'' ''#controllers/ping_controller'') =
       Inr (demo_state\<lparr>skipped :=
              [(''Validating route \"/ping\" - \"GET\"'',
                ''We were not able to find the \"handle\" method'')]\<rparr>)"
    and "list_all (from_validated demo_helpers demo_sources demo_table)
            (concat (map snd (written s)))"
    by simp_all
  with b1 b2 b3 b5 c2 c3 s show ?thesis by simp
qed

section \<open>The group of a route\<close>







section \<open>The configuration that defineConfig accepts\<close>

lemma split_char_not_Nil [simp]: "split_char sep s \<noteq> []"
  by (induction s) (auto split: list.splits)

lemma set_concat_split_char:
  "set (concat (split_char sep s)) = set s - {sep}"
proof (induction s)
  case Nil
  then show ?case by simp
next
  case (Cons c cs)
  obtain w ws where w: "split_char sep cs = w # ws"
    by (cases "split_char sep cs") auto
  with Cons show ?case by auto
qed

lemma list_all_split_char:
  "list_all (list_all P) (split_char sep s) \<longleftrightarrow> list_all (\<lambda>d. P d \<or> d = sep) s"
proof -
  have "list_all (list_all P) (split_char sep s) \<longleftrightarrow> (\<forall>c \<in> set (concat (split_char sep s)). P c)"
    by (auto simp: list_all_iff)
  also have "\<dots> \<longleftrightarrow> (\<forall>c \<in> set s - {sep}. P c)"
    by (simp only: set_concat_split_char)
  also have "\<dots> \<longleftrightarrow> list_all (\<lambda>d. P d \<or> d = sep) s"
    by (auto simp: list_all_iff)
  finally show ?thesis .
qed

lemma test_group_value_spec:
  "test_group_value v \<longleftrightarrow> spec_group_pattern v \<and> 3 \<le> length v"
proof (cases v)
  case Nil
  then show ?thesis by simp
next
  case (Cons c cs)
  show ?thesis
  proof (cases "cs = []")
    case True
    with Cons show ?thesis by simp
  next
    case False
    then obtain mid l where cs: "cs = mid @ [l]"
      by (metis append_butlast_last_id)
    show ?thesis
      unfolding Cons cs spec_group_pattern_def list_all_split_char
      by (cases mid) (auto simp: suffix_def)
  qed
qed


lemma test_group_key_spec: "test_group_key k \<longleftrightarrow> spec_group_key k"
  by (simp add: test_group_key_def spec_group_key_def)

lemma defineConfig_loop_find:
  "defineConfig_loop es =
     (case find (\<lambda>e. \<not> config_entry_ok e) es of
        None \<Rightarrow> None
      | Some (k, v) \<Rightarrow>
          if spec_group_pattern v \<and> 3 \<le> length v
          then Some (InvalidArgumentsException (invalid_name_message k))
          else Some (InvalidArgumentsException (invalid_value_message k v)))"
  by (induction es rule: defineConfig_loop.induct)
     (auto simp: config_entry_ok_def test_group_value_spec test_group_key_spec
        invalid_name_message_def invalid_value_message_def)

lemma set_Object_entries [simp]: "set (Object_entries obj) = set obj"
  by (auto simp: Object_entries_def)

lemma find_None_list_all: "find (\<lambda>e. \<not> P e) es = None \<longleftrightarrow> list_all P es"
  by (induction es) auto

text \<open>
  C7, as stated, fails. The pattern \<^verbatim>\<open>/\<close> starts and ends with \<^verbatim>\<open>/\<close> and has no
  character that a segment may not have, and \<^verbatim>\<open>defineConfig\<close> raises for it; and when
  the specification is read as asking for non-empty segments, the pattern
  \<^verbatim>\<open>/a//b/\<close> is malformed and \<^verbatim>\<open>defineConfig\<close> returns the configuration.
\<close>

theorem C7_counterexample:
  "spec_group_key ''root'' \<and> spec_group_pattern ''/''
   \<and> defineConfig \<lparr>groups = [(''root'', ''/'')]\<rparr> =
       Inl (InvalidArgumentsException (invalid_value_message ''root'' ''/''))
   \<and> \<not> spec_group_pattern_strict ''/a//b/''
   \<and> defineConfig \<lparr>groups = [(''a'', ''/a//b/'')]\<rparr> = Inr \<lparr>groups = [(''a'', ''/a//b/'')]\<rparr>"
  by code_simp

text \<open>
  C7, amended. \<^verbatim>\<open>defineConfig\<close> returns the given configuration unchanged exactly when
  every group key is a non-empty text of lowercase alphanumeric characters and underscores
  and every group pattern has at least three characters, starts and ends with \<^verbatim>\<open>/\<close>
  and has lowercase alphanumeric characters, hyphens and \<^verbatim>\<open>/\<close> only. Otherwise it
  raises, for the first entry in enumeration order that is not so, an error that names the
  key and the value when the pattern is refused, and the key when the pattern is fine and
  the key is refused.
\<close>

theorem C7_defineConfig_accepts_by_its_regular_expressions:
  "defineConfig config =
     (case find (\<lambda>e. \<not> config_entry_ok e) (Object_entries (groups config)) of
        None \<Rightarrow> Inr config
      | Some (k, v) \<Rightarrow>
          if spec_group_pattern v \<and> 3 \<le> length v
          then Inl (InvalidArgumentsException (invalid_name_message k))
          else Inl (InvalidArgumentsException (invalid_value_message k v)))
   \<and> (defineConfig config = Inr config) = list_all config_entry_ok (groups config)"
proof
  show eq: "defineConfig config =
     (case find (\<lambda>e. \<not> config_entry_ok e) (Object_entries (groups config)) of
        None \<Rightarrow> Inr config
      | Some (k, v) \<Rightarrow>
          if spec_group_pattern v \<and> 3 \<le> length v
          then Inl (InvalidArgumentsException (invalid_name_message k))
          else Inl (InvalidArgumentsException (invalid_value_message k v)))"
  proof (cases "groups config = []")
    case True
    then show ?thesis by (simp add: defineConfig_def Object_entries_def)
  next
    case False
    then show ?thesis
      by (simp add: defineConfig_def defineConfig_loop_find split: option.splits)
  qed
  have "(defineConfig config = Inr config) =
      (find (\<lambda>e. \<not> config_entry_ok e) (Object_entries (groups config)) = None)"
    unfolding eq by (auto split: option.splits)
  also have "\<dots> = list_all config_entry_ok (Object_entries (groups config))"
    by (rule find_None_list_all)
  also have "\<dots> = list_all config_entry_ok (groups config)"
    by (simp add: list_all_iff)
  finally show "(defineConfig config = Inr config) = list_all config_entry_ok (groups config)" .
qed

theorem C7_witness:
  "defineConfig demo_config = Inr demo_config
   \<and> list_all config_entry_ok (groups demo_config)
   \<and> defineConfig \<lparr>groups = [(''api'', ''/api/''), (''Admin'', ''/Admin'')]\<rparr> =
       Inl (InvalidArgumentsException (invalid_value_message ''Admin'' ''/Admin''))
   \<and> defineConfig \<lparr>groups = [(''api'', ''/api/''), (''Admin'', ''/admin/'')]\<rparr> =
       Inl (InvalidArgumentsException (invalid_name_message ''Admin''))"
proof -
  have a: "list_all config_entry_ok (groups demo_config)"
    by code_simp
  have b: "find (\<lambda>e. \<not> config_entry_ok e)
        (Object_entries (groups \<lparr>groups = [(''api'', ''/api/''), (''Admin'', ''/Admin'')]\<rparr>)) =
      Some (''Admin'', ''/Admin'')" "\<not> (spec_group_pattern ''/Admin'' \<and> 3 \<le> length ''/Admin'')"
    by code_simp+
  have c: "find (\<lambda>e. \<not> config_entry_ok e)
        (Object_entries (groups \<lparr>groups = [(''api'', ''/api/''), (''Admin'', ''/admin/'')]\<rparr>)) =
      Some (''Admin'', ''/admin/'')" "spec_group_pattern ''/admin/'' \<and> 3 \<le> length ''/admin/''"
    by code_simp+
  from C7_defineConfig_accepts_by_its_regular_expressions[of demo_config] a
  have "defineConfig demo_config = Inr demo_config" by blast
  moreover
  from C7_defineConfig_accepts_by_its_regular_expressions
    [of "\<lparr>groups = [(''api'', ''/api/''), (''Admin'', ''/Admin'')]\<rparr>"]
  have "defineConfig \<lparr>groups = [(''api'', ''/api/''), (''Admin'', ''/Admin'')]\<rparr> =
       Inl (InvalidArgumentsException (invalid_value_message ''Admin'' ''/Admin''))"
    unfolding b(1) using b(2) by simp
  moreover
  from C7_defineConfig_accepts_by_its_regular_expressions
    [of "\<lparr>groups = [(''api'', ''/api/''), (''Admin'', ''/admin/'')]\<rparr>"]
  have "defineConfig \<lparr>groups = [(''api'', ''/api/''), (''Admin'', ''/admin/'')]\<rparr> =
       Inl (InvalidArgumentsException (invalid_name_message ''Admin''))"
    unfolding c(1) using c(2) by simp
  ultimately show ?thesis using a by (intro conjI)
qed

section \<open>Path interpolation\<close>

lemma take_placeholder_other:
  "c \<noteq> CHR ''{'' \<Longrightarrow> take_placeholder (c # cs) = None"
  by (simp add: take_placeholder_def)

lemma take_placeholder_rendered:
  assumes "n \<noteq> []" and "list_all is_name_char n"
  shows "take_placeholder (''{{ '' @ n @ '' }}'' @ rest) = Some (n, rest)"
proof -
  have t: "takeWhile is_name_char (n @ '' }}'' @ rest) = n"
    using assms(2) by (induction n) (auto simp: is_name_char_def)
  have d: "dropWhile is_name_char (n @ '' }}'' @ rest) = '' }}'' @ rest"
    using assms(2) by (induction n) (auto simp: is_name_char_def)
  show ?thesis
    using assms(1) t d by (simp add: take_placeholder_def)
qed

lemma interpolate_literal:
  assumes "CHR ''{'' \<notin> set t"
  shows "interpolate (t @ rest) params =
           (case interpolate rest params of Inl e \<Rightarrow> Inl e | Inr r \<Rightarrow> Inr (t @ r))"
  using assms
proof (induction t)
  case Nil
  then show ?case by (simp split: sum.splits)
next
  case (Cons c t)
  then have "take_placeholder (c # t @ rest) = None"
    by (auto simp: take_placeholder_def)
  with Cons show ?case by (simp split: sum.splits)
qed

lemma interpolate_placeholder:
  assumes "n \<noteq> []" and "list_all is_name_char n"
  shows "interpolate (''{{ '' @ n @ '' }}'' @ rest) params =
           (case params n of
              None \<Rightarrow> Inl (MissingParameter n)
            | Some v \<Rightarrow>
                (case interpolate rest params of Inl e \<Rightarrow> Inl e | Inr r \<Rightarrow> Inr (v @ r)))"
proof -
  have "interpolate (CHR ''{'' # ''{ '' @ n @ '' }}'' @ rest) params =
      (case take_placeholder (CHR ''{'' # ''{ '' @ n @ '' }}'' @ rest) of
        Some (n, rest) \<Rightarrow>
          (case params n of
             None \<Rightarrow> Inl (MissingParameter n)
           | Some v \<Rightarrow>
               (case interpolate rest params of
                  Inl e \<Rightarrow> Inl e
                | Inr r \<Rightarrow> Inr (v @ r)))
      | None \<Rightarrow>
          (case interpolate (''{ '' @ n @ '' }}'' @ rest) params of
             Inl e \<Rightarrow> Inl e
           | Inr r \<Rightarrow> Inr (CHR ''{'' # r)))"
    by (rule interpolate.simps(2))
  moreover have "take_placeholder (CHR ''{'' # ''{ '' @ n @ '' }}'' @ rest) = Some (n, rest)"
    using take_placeholder_rendered[OF assms, of rest] by simp
  ultimately show ?thesis by simp
qed

lemma interpolate_render:
  assumes "list_all wellformed_piece ps"
  shows "interpolate (render ps) params =
     (case find (\<lambda>n. params n = None) (placeholders ps) of
        Some n \<Rightarrow> Inl (MissingParameter n)
      | None \<Rightarrow> Inr (concat (map (fill params) ps)))"
  using assms
proof (induction ps rule: render.induct)
  case 1
  then show ?case by simp
next
  case (2 t ps)
  then show ?case
    by (simp add: interpolate_literal split: option.splits)
next
  case (3 n ps)
  then show ?case
    using interpolate_placeholder[of n "render ps" params]
    by (auto split: option.splits)
qed


text \<open>
  C8. For a template made of literal text without braces and of placeholders
  \<^verbatim>\<open>{{ name }}\<close>, path interpolation returns the template with every placeholder
  replaced by the string of its parameter when every name has a parameter, and fails with
  the error for the first name that has none; the \<^verbatim>\<open>path\<close> builder of a registered
  route is this interpolation of the route's template; \<^verbatim>\<open>/users/{{ id }}\<close> with
  \<^verbatim>\<open>{id: "42"}\<close> yields \<^verbatim>\<open>/users/42\<close>, and without \<^verbatim>\<open>id\<close> it fails.
\<close>

theorem C8_path_interpolation:
  "(list_all wellformed_piece ps \<longrightarrow>
      pathParser (render ps) params =
        (case find (\<lambda>n. params n = None) (placeholders ps) of
           Some n \<Rightarrow> Inl (MissingParameter n)
         | None \<Rightarrow> Inr (concat (map (fill params) ps))))
   \<and> Descriptor.path (register p m f) params = pathParser p params
   \<and> pathParser ''/users/{{ id }}'' [''id'' \<mapsto> ''42''] = Inr ''/users/42''
   \<and> pathParser ''/users/{{ id }}'' Map.empty = Inl (MissingParameter ''id'')"
proof (intro conjI impI)
  assume "list_all wellformed_piece ps"
  then show "pathParser (render ps) params =
        (case find (\<lambda>n. params n = None) (placeholders ps) of
           Some n \<Rightarrow> Inl (MissingParameter n)
         | None \<Rightarrow> Inr (concat (map (fill params) ps)))"
    unfolding pathParser_def by (rule interpolate_render)
next
  show "Descriptor.path (register p m f) params = pathParser p params"
    by (simp add: register_def)
next
  have w: "list_all wellformed_piece [Literal ''/users/'', Placeholder ''id'']"
    by (simp add: is_name_char_def)
  have r: "render [Literal ''/users/'', Placeholder ''id''] = ''/users/{{ id }}''"
    by simp
  show "pathParser ''/users/{{ id }}'' [''id'' \<mapsto> ''42''] = Inr ''/users/42''"
    using interpolate_render[OF w, of "[''id'' \<mapsto> ''42'']"]
    unfolding r pathParser_def by simp
  show "pathParser ''/users/{{ id }}'' Map.empty = Inl (MissingParameter ''id'')"
    using interpolate_render[OF w, of Map.empty]
    unfolding r pathParser_def by simp
qed

theorem C8_witness:
  "list_all wellformed_piece demo_pieces
   \<and> render demo_pieces = ''/users/{{ id }}/posts/{{ postId }}''
   \<and> pathParser ''/users/{{ id }}/posts/{{ postId }}'' [''id'' \<mapsto> ''42'', ''postId'' \<mapsto> ''7''] =
       Inr ''/users/42/posts/7''
   \<and> pathParser ''/users/{{ id }}/posts/{{ postId }}'' [''id'' \<mapsto> ''42''] =
       Inl (MissingParameter ''postId'')"
proof -
  have w: "list_all wellformed_piece demo_pieces"
    by (simp add: demo_pieces_def is_name_char_def)
  have r: "render demo_pieces = ''/users/{{ id }}/posts/{{ postId }}''"
    by (simp add: demo_pieces_def)
  from C8_path_interpolation[of demo_pieces "[''id'' \<mapsto> ''42'', ''postId'' \<mapsto> ''7'']"] w
  have a: "pathParser (render demo_pieces) [''id'' \<mapsto> ''42'', ''postId'' \<mapsto> ''7''] =
       Inr ''/users/42/posts/7''"
    by (simp add: demo_pieces_def)
  from C8_path_interpolation[of demo_pieces "[''id'' \<mapsto> ''42'']"] w
  have b: "pathParser (render demo_pieces) [''id'' \<mapsto> ''42''] =
       Inl (MissingParameter ''postId'')"
    by (simp add: demo_pieces_def)
  from w r a b show ?thesis by (simp only:)
qed

section \<open>Path segments: what is accepted\<close>

lemma rewrite_segments_accepts:
  "isl (rewrite_segments pat i segments) \<longleftrightarrow> \<not> list_all segment_accepted segments"
proof (induction segments arbitrary: i)
  case Nil
  then show ?case by simp
next
  case (Cons segment segments)
  show ?case
  proof (cases "rewrite_segments pat (i + 1) segments")
    case (Inl e)
    with Cons[of "i + 1"] show ?thesis
      by (simp add: segment_accepted_def startsWith_def)
  next
    case (Inr out)
    with Cons[of "i + 1"] show ?thesis
      by (simp add: segment_accepted_def startsWith_def)
  qed
qed

lemma rewritePath_accepts:
  "isl (rewritePath pat) \<longleftrightarrow>
     \<not> list_all segment_accepted (drop 1 (split_char CHR ''/'' pat))"
  using rewrite_segments_accepts[of pat 0 "drop 1 (split_char CHR ''/'' pat)"]
  by (auto simp: rewritePath_def split: sum.splits)

lemma spec_segment_accepted: "spec_segment segment \<Longrightarrow> segment_accepted segment"
  by (auto simp: spec_segment_def segment_accepted_def spec_literal_segment_def
      match_literal_segment_def list_all_iff)

lemma rewritePath_examples:
  "rewritePath ''/users/:id/posts/:postId'' = Inr ''/users/{{ id }}/posts/{{ postId }}''"
  "rewritePath ''/users/:id2'' =
     Inl (Error ''Only small letters allowed in parameter segments''
            (CauseSegment 1 ''/users/:id2''))"
  "rewritePath ''/user_list'' =
     Inl (Error ''Only small letters and number allowed in non parameter segments''
            (CauseSegment 0 ''/user_list''))"
  "rewritePath ''/'' =
     Inl (Error ''Only small letters and number allowed in non parameter segments''
            (CauseSegment 0 ''/''))"
  by code_simp+

text \<open>
  C2 asks that every literal segment match \<^verbatim>\<open>[a-z0-9-]+\<close> and that a segment which
  does not be a fatal error. The generator tests a literal segment with
  \<^verbatim>\<open>/^[a-z0-9-]+$/i\<close>, which matches capital letters too, while the error it throws
  says that only small letters and numbers are allowed: the segments \<^verbatim>\<open>Users\<close> and
  \<^verbatim>\<open>V2\<close> are not of \<^verbatim>\<open>[a-z0-9-]+\<close>, and the patterns \<^verbatim>\<open>/Users\<close> and
  \<^verbatim>\<open>/api/V2/:id\<close> are accepted without an error.
\<close>

theorem C2_capital_letters_are_accepted:
  "\<not> spec_literal_segment ''Users''
   \<and> rewritePath ''/Users'' = Inr ''/Users''
   \<and> \<not> spec_literal_segment ''V2''
   \<and> rewritePath ''/api/V2/:id'' = Inr ''/api/V2/{{ id }}''"
  by code_simp

section \<open>The form flag\<close>

lemma Boolean_spec_form_flag:
  "declared = None \<or> declared = Some ''true'' \<Longrightarrow> Boolean declared = spec_form_flag declared"
  by (auto simp: spec_form_flag_def)

lemma validateController_form:
  assumes "validateController sf = Inr f"
    and "find isDefaultExport (classes sf) = Some classDef"
  shows "f = (case getProperty classDef ''form'' of
                None \<Rightarrow> False
              | Some formProperty \<Rightarrow> Boolean (initializer formProperty))"
  using assms unfolding validateController_def
  by (auto split: option.splits if_splits)

text \<open>
  C3 asks that the \<^verbatim>\<open>form\<close> flag of a route be the value of the declared literal
  initializer of the boolean \<^verbatim>\<open>form\<close> member. The generator takes
  \<^verbatim>\<open>Boolean(...)\<close> of the text of the initializer, which is true for every non-empty
  text: the controller of the example declares \<^verbatim>\<open>form: boolean = false\<close>, and the
  route is emitted with \<^verbatim>\<open>form: true\<close>.
\<close>

theorem C3_initializer_false_gives_true:
  "find isDefaultExport (classes (demo_sources ! 2)) =
     Some \<lparr>isDefaultExport = True, isClass = True,
           properties =
             [(''handle'', demo_property),
              (''form'', demo_property\<lparr>isBoolean := True, initializer := Some ''false''\<rparr>)]\<rparr>
   \<and> spec_form_flag (Some ''false'') = False
   \<and> validateController (demo_sources ! 2) = Inr True
   \<and> (case processRoute demo_helpers demo_sources ''api'' initial_State
            (demo_route ''/api/posts/:postId'' ''#controllers/posts/list_controller'') of
        Inl e \<Rightarrow> False
      | Inr s \<Rightarrow> map form (parsedRoutes s) = [True] \<and>
          map routes_entry (parsedRoutes s) =
            [''API_POSTS_LIST: register<ApiPostsListRoute>({ form: true, path: '' @ [CHR 0x27] @
             ''/api/posts/{{ postId }}'' @ [CHR 0x27] @ '', method: '' @ [CHR 0x27] @ ''GET'' @
             [CHR 0x27] @ '' }),''])"
  by code_simp

section \<open>Route names and the suffix of the controller file\<close>

lemma foldl_set_add:
  "foldl set_add acc xs = acc @ dedup_first (filter (\<lambda>x. x \<notin> set acc) xs)"
proof (induction xs arbitrary: acc)
  case Nil
  then show ?case by simp
next
  case (Cons x xs)
  show ?case
  proof (cases "x \<in> set acc")
    case True
    with Cons[of acc] show ?thesis by (simp add: set_add_def)
  next
    case False
    have "filter (\<lambda>y. y \<notin> set (acc @ [x])) xs =
        filter (\<lambda>y. y \<noteq> x) (filter (\<lambda>y. y \<notin> set acc) xs)"
      by (induction xs) auto
    with False Cons[of "acc @ [x]"] show ?thesis
      by (simp add: set_add_def)
  qed
qed

lemma new_Set_dedup_first: "new_Set xs = dedup_first xs"
  by (simp add: new_Set_def foldl_set_add)

lemma replace_only_occurrence:
  assumes "\<forall>i < length stem. \<not> prefix pat (drop i (stem @ pat))"
  shows "replace (stem @ pat) pat [] = stem"
  using assms
proof (induction stem)
  case Nil
  then show ?case by (cases pat) simp_all
next
  case (Cons c stem)
  from Cons.prems have "\<not> prefix pat (c # stem @ pat)"
    by (metis append_Cons drop0 length_greater_0_conv list.distinct(1))
  moreover have "\<forall>i < length stem. \<not> prefix pat (drop i (stem @ pat))"
  proof (intro allI impI)
    fix i assume "i < length stem"
    then have "Suc i < length (c # stem)" by simp
    with Cons.prems have "\<not> prefix pat (drop (Suc i) ((c # stem) @ pat))" by blast
    then show "\<not> prefix pat (drop i (stem @ pat))" by simp
  qed
  ultimately show ?case using Cons.IH by simp
qed

lemma replace_suffix:
  assumes "suffix pat s" and "\<not> occurs_before_end pat s"
  shows "replace s pat [] = take (length s - length pat) s"
proof -
  from assms(1) obtain stem where s: "s = stem @ pat" by (auto simp: suffix_def)
  have "\<forall>i < length stem. \<not> prefix pat (drop i (stem @ pat))"
    using assms(2) by (auto simp: occurs_before_end_def list_ex_iff s)
  from replace_only_occurrence[OF this] show ?thesis by (simp add: s)
qed

lemma getConstructorAction_spec:
  assumes "\<not> occurs_before_end ''_controller.ts'' (last (split_char CHR ''/'' p))"
  shows "(case getConstructorAction p of Inl e \<Rightarrow> None | Inr ws \<Rightarrow> Some ws) =
           spec_controller_words p"
proof -
  obtain fileName front where r: "rev (split_char CHR ''/'' p) = fileName # front"
    by (cases "rev (split_char CHR ''/'' p)") auto
  then have l: "last (split_char CHR ''/'' p) = fileName"
    by (metis last_rev list.sel(1) rev_rev_ident split_char_not_Nil hd_rev rev_is_Nil_conv)
  show ?thesis
  proof (cases "suffix ''_controller.ts'' fileName")
    case True
    then have "fileName \<noteq> []" by auto
    with True replace_suffix[OF True] assms show ?thesis
      by (simp add: getConstructorAction_def spec_controller_words_def r l endsWith_def)
  next
    case False
    then show ?thesis
      by (simp add: getConstructorAction_def spec_controller_words_def r l endsWith_def)
  qed
qed

lemma routeName_spec:
  assumes "\<not> occurs_before_end ''_controller.ts'' (last (split_char CHR ''/'' p))"
  shows "(case routeName h pat p of Inl e \<Rightarrow> None | Inr n \<Rightarrow> Some n) = spec_routeName h pat p"
proof (cases "getConstructorAction p")
  case (Inl e)
  with getConstructorAction_spec[OF assms] have "spec_controller_words p = None" by simp
  with Inl show ?thesis by (simp add: routeName_def spec_routeName_def)
next
  case (Inr ws)
  with getConstructorAction_spec[OF assms] have "spec_controller_words p = Some ws" by simp
  with Inr show ?thesis
    by (simp add: routeName_def spec_routeName_def spacedPath_of_pattern_def startsWith_def
        new_Set_dedup_first Let_def)
qed

text \<open>
  C4 asks that the words of the controller file name be those of the name with the
  mandatory suffix stripped. The generator checks that the name ends with
  \<^verbatim>\<open>_controller.ts\<close> and then removes the first occurrence of that text, which is not
  the suffix when the text occurs earlier in the name: for the file
  \<^verbatim>\<open>x_controller.ts.old_controller.ts\<close> the words are \<^verbatim>\<open>x.old\<close> and
  \<^verbatim>\<open>controller.ts\<close> and not \<^verbatim>\<open>x\<close> and \<^verbatim>\<open>controller.ts.old\<close>, and the key and
  the type of the route differ from the ones the specification derives. (When the text
  occurs at the end only, the two agree: \<open>routeName_spec\<close>.)
\<close>

theorem C4_first_occurrence_of_suffix_is_removed:
  "suffix ''_controller.ts'' (last (split_char CHR ''/'' demo_odd_path))
   \<and> getConstructorAction demo_odd_path = Inr [''x.old'', ''controller.ts'']
   \<and> spec_controller_words demo_odd_path = Some [''x'', ''controller.ts.old'']
   \<and> routeName demo_helpers ''/x'' demo_odd_path =
       Inr \<lparr>key = ''X_X_OLD_CONTROLLER_TS'', type = ''XXOldControllerTsRoute''\<rparr>
   \<and> spec_routeName demo_helpers ''/x'' demo_odd_path =
       Some \<lparr>key = ''X_CONTROLLER_TS_OLD'', type = ''XControllerTsOldRoute''\<rparr>"
  by code_simp

section \<open>The templates of the generator are interpolated as the specification says\<close>

lemma letters_are_name_chars:
  "is_lower c \<or> is_upper c \<Longrightarrow> is_name_char c"
  by (auto simp: is_lower_def is_upper_def is_name_char_def lower_letters_def upper_letters_def)

lemma literal_chars_no_brace:
  "is_lower c \<or> is_upper c \<or> is_digit c \<or> c = CHR ''-'' \<Longrightarrow> c \<noteq> CHR ''{''"
  by (auto simp: is_lower_def is_upper_def is_digit_def lower_letters_def upper_letters_def
      digit_chars_def)

lemma segment_pieces_wellformed:
  assumes "segment_accepted segment"
  shows "list_all wellformed_piece (segment_pieces segment)"
proof (cases "prefix '':'' segment")
  case True
  then obtain cs where s: "segment = CHR '':'' # cs" by (auto simp: prefix_def)
  with assms True show ?thesis
    by (auto simp: segment_accepted_def segment_pieces_def list_all_iff letters_are_name_chars)
next
  case False
  with assms have "\<forall>c \<in> set segment. c \<noteq> CHR ''{''"
    using literal_chars_no_brace
    by (auto simp: segment_accepted_def match_literal_segment_def list_all_iff)
  with False show ?thesis
    by (auto simp: segment_pieces_def)
qed

lemma rewrite_segments_render:
  "rewrite_segments pat i segments = Inr out \<Longrightarrow>
   concat (map (\<lambda>s. ''/'' @ s) out) = render (concat (map segment_pieces segments))"
proof (induction segments arbitrary: i out)
  case Nil
  then show ?case by simp
next
  case (Cons segment segments)
  from Cons.prems obtain rest where
    rest: "rewrite_segments pat (i + 1) segments = Inr rest"
    by (auto split: if_splits sum.splits)
  note IH = Cons.IH[OF rest]
  show ?case
  proof (cases "prefix '':'' segment")
    case True
    then obtain cs where s: "segment = CHR '':'' # cs" by (auto simp: prefix_def)
    from Cons.prems rest True have "out = (''{{ '' @ cs @ '' }}'') # rest"
      by (auto simp: startsWith_def s split: if_splits)
    with IH True show ?thesis by (simp add: segment_pieces_def s)
  next
    case False
    from Cons.prems rest False have "out = segment # rest"
      by (auto simp: startsWith_def split: if_splits)
    with IH False show ?thesis by (simp add: segment_pieces_def)
  qed
qed

lemma slash_join:
  "out \<noteq> [] \<Longrightarrow> sep @ join sep out = concat (map (\<lambda>s. sep @ s) out)"
  by (induction sep out rule: join.induct) auto

lemma rewritePath_template:
  assumes "rewritePath pat = Inr t"
  shows "\<exists>ps. list_all wellformed_piece ps \<and> render ps = t"
proof -
  let ?segments = "drop 1 (split_char CHR ''/'' pat)"
  from assms obtain out where
    out: "rewrite_segments pat 0 ?segments = Inr out" and t: "t = ''/'' @ join ''/'' out"
    by (auto simp: rewritePath_def split: sum.splits)
  show ?thesis
  proof (cases "out = []")
    case True
    then have "list_all wellformed_piece [Literal ''/''] \<and> render [Literal ''/''] = t"
      by (simp add: t)
    then show ?thesis by blast
  next
    case False
    have "\<not> isl (rewrite_segments pat 0 ?segments)" using out by simp
    then have "list_all segment_accepted ?segments"
      by (simp add: rewrite_segments_accepts)
    then have "list_all wellformed_piece (concat (map segment_pieces ?segments))"
      using segment_pieces_wellformed by (auto simp: list_all_iff)
    moreover have "render (concat (map segment_pieces ?segments)) = t"
      using rewrite_segments_render[OF out] slash_join[OF False] by (simp add: t)
    ultimately show ?thesis by blast
  qed
qed

lemma generated_template_interpolates:
  assumes "rewritePath pat = Inr t"
  shows "\<exists>ps. render ps = t \<and>
           pathParser t params =
             (case find (\<lambda>n. params n = None) (placeholders ps) of
                Some n \<Rightarrow> Inl (MissingParameter n)
              | None \<Rightarrow> Inr (concat (map (fill params) ps)))"
proof -
  from rewritePath_template[OF assms] obtain ps where
    ps: "list_all wellformed_piece ps" "render ps = t" by blast
  from interpolate_render[OF ps(1), of params] ps(2) show ?thesis
    by (auto simp: pathParser_def)
qed

end
